theory Spec2Isabelle
  imports Complex_Main
begin

section \<open>Conventions of the embedding\<close>

text \<open>
  The development embeds the data-processing core of the job analyser: the frozen
  configuration object (\<^verbatim>\<open>src/js/config.js\<close>), the class \<^verbatim>\<open>Utils\<close>, the class
  \<^verbatim>\<open>DataProcessor\<close> and the method \<^verbatim>\<open>ExportManager.calculateOverdueAnalysis\<close>.

  \<^item> A JavaScript number is read as a \<^typ>\<open>real\<close>; \<^verbatim>\<open>NaN\<close> and the infinities do not
    occur. In the statistics the arithmetic is exact: rounding moves the mean and the
    standard deviation by a rounding error and leaves the minimum, the maximum and
    the count as they are. In the overdue analysis a duration is compared with a
    computed threshold, so that rounding decides a count: there the arithmetic of the
    runtime is a parameter (\<open>arith\<close>), and IEEE double arithmetic is one instance. A
    \<^verbatim>\<open>Date\<close> is its time value, an \<^typ>\<open>int\<close> of milliseconds, and \<^verbatim>\<open>Invalid Date\<close> is
    \<^term>\<open>None\<close>.
  \<^item> A string is a \<^typ>\<open>string\<close>; a character stands for one code unit below 256.
  \<^item> A thrown exception is the \<^term>\<open>Inl\<close> branch of a sum; \<^verbatim>\<open>null\<close> and
    \<^verbatim>\<open>undefined\<close> are \<^term>\<open>None\<close>.
  \<^item> A plain object used as a dictionary is an association list whose keys are listed
    in the order of their first insertion. JavaScript enumerates keys that look like
    array indices before the others; no statement below depends on the order of keys,
    all of them read the objects through \<^term>\<open>map_of\<close>.
\<close>

section \<open>Errors (the subclasses of JobAnalyzerError)\<close>

text \<open>
  \<^verbatim>\<open>ValidationError\<close> carries the two variable parts of its message, the expected
  label and the cell address. \<^verbatim>\<open>FileError\<close> and \<^verbatim>\<open>ProcessingError\<close> carry their
  \<^verbatim>\<open>originalError\<close>, which is absent when the file reader itself fails.
  \<^verbatim>\<open>TypeError\<close> is the built-in error of calling a method that a value does not have.
\<close>

datatype jerror =
    TypeError
  | ValidationError string string
  | DataError
  | FileError "jerror option"
  | ProcessingError jerror

section \<open>CONFIG\<close>

datatype column = JOB_NAME | AGENT_NAME | START_DATETIME | END_DATETIME

definition HEADER_ROW :: nat where
  "HEADER_ROW = 9"

definition DATA_START_ROW :: nat where
  "DATA_START_ROW = 10"

fun COLUMNS :: "column \<Rightarrow> string" where
  "COLUMNS JOB_NAME = ''A''"
| "COLUMNS AGENT_NAME = ''E''"
| "COLUMNS START_DATETIME = ''O''"
| "COLUMNS END_DATETIME = ''Q''"

fun HEADERS :: "column \<Rightarrow> string" where
  "HEADERS JOB_NAME = ''Job Name''"
| "HEADERS AGENT_NAME = ''Agent Name''"
| "HEADERS START_DATETIME = ''Start Date, Time''"
| "HEADERS END_DATETIME = ''End Date, Time''"

text \<open>The keys of \<^verbatim>\<open>CONFIG.EXCEL.COLUMNS\<close> in the order \<^verbatim>\<open>Object.entries\<close> lists them.\<close>

definition COLUMNS_entries :: "column list" where
  "COLUMNS_entries = [JOB_NAME, AGENT_NAME, START_DATETIME, END_DATETIME]"

definition OVERDUE_THRESHOLD :: real where
  "OVERDUE_THRESHOLD = 1"

definition MIN_EXECUTIONS :: nat where
  "MIN_EXECUTIONS = 3"

section \<open>Numbers as text\<close>

text \<open>The decimal text JavaScript gives an integer-valued number in a template string.\<close>

fun decimal_nat :: "nat \<Rightarrow> string" where
  "decimal_nat n =
     (if n < 10 then [''0123456789'' ! n]
      else decimal_nat (n div 10) @ [''0123456789'' ! (n mod 10)])"

declare decimal_nat.simps [simp del]

definition decimal_int :: "int \<Rightarrow> string" where
  "decimal_int i = (if i < 0 then CHR ''-'' # decimal_nat (nat (- i)) else decimal_nat (nat i))"

section \<open>Utils\<close>

record duration_fmt =
  formatted :: string
  hours :: int
  minutes :: int
  totalMinutes :: real

text \<open>
  \<^verbatim>\<open>a % b\<close> on numbers keeps the sign of the dividend; \<^verbatim>\<open>Math.round\<close> rounds a half
  towards plus infinity.
\<close>

definition js_rem :: "real \<Rightarrow> real \<Rightarrow> real" where
  "js_rem a b = a - b * real_of_int (if a / b < 0 then \<lceil>a / b\<rceil> else \<lfloor>a / b\<rfloor>)"

definition Math_round :: "real \<Rightarrow> int" where
  "Math_round x = \<lfloor>x + 1 / 2\<rfloor>"

definition formatDuration :: "real \<Rightarrow> duration_fmt" where
  "formatDuration mins_in =
     (let h = \<lfloor>mins_in / 60\<rfloor>;
          m = Math_round (js_rem mins_in 60)
      in \<lparr>formatted = decimal_int h @ ''h '' @ decimal_int m @ ''m'',
          hours = h, minutes = m, totalMinutes = mins_in\<rparr>)"

record basic_stats =
  min_v :: real
  max_v :: real
  mean :: real
  std :: real
  count :: nat

text \<open>
  \<^verbatim>\<open>Math.min(...values)\<close> and \<^verbatim>\<open>Math.max(...values)\<close> scan the values from left
  to right; \<^verbatim>\<open>calculateStats\<close> reaches them only with a list that is not empty.
\<close>

definition calculateStats :: "real list \<Rightarrow> basic_stats option" where
  "calculateStats vals =
     (case vals of
        [] \<Rightarrow> None
      | v # vs \<Rightarrow>
          (let sum_v = foldl (+) 0 vals;
               mean_v = sum_v / real (length vals);
               squaredDiffs = map (\<lambda>value. (value - mean_v) ^ 2) vals;
               variance = foldl (+) 0 squaredDiffs / real (length vals)
           in Some \<lparr>min_v = foldl min v vs, max_v = foldl max v vs, mean = mean_v,
                    std = sqrt variance, count = length vals\<rparr>))"

record exec =
  jobName :: string
  agentName :: string
  startDateTime :: int
  endDateTime :: int
  duration :: real

text \<open>
  \<^verbatim>\<open>Utils.groupBy(array, "jobName")\<close>. The accumulator is the object literal \<^verbatim>\<open>{}\<close>, so
  \<^verbatim>\<open>groups[name]\<close> for a name that has no group yet reads through to
  \<^verbatim>\<open>Object.prototype\<close>: for the twelve names below it is a function or an object, which
  is truthy and has no \<^verbatim>\<open>push\<close>, and \<^verbatim>\<open>group.push(item)\<close> throws a \<^verbatim>\<open>TypeError\<close>.
\<close>

definition Object_prototype_keys :: "string list" where
  "Object_prototype_keys =
     [''constructor'', ''hasOwnProperty'', ''isPrototypeOf'', ''propertyIsEnumerable'',
      ''toLocaleString'', ''toString'', ''valueOf'', ''__proto__'',
      ''__defineGetter__'', ''__defineSetter__'', ''__lookupGetter__'', ''__lookupSetter__'']"

fun upsert :: "string \<Rightarrow> 'a \<Rightarrow> (string \<times> 'a) list \<Rightarrow> (string \<times> 'a) list" where
  "upsert k v [] = [(k, v)]"
| "upsert k v ((k', v') # kvs) = (if k' = k then (k, v) # kvs else (k', v') # upsert k v kvs)"

definition groupBy_step ::
  "jerror + (string \<times> exec list) list \<Rightarrow> exec \<Rightarrow> jerror + (string \<times> exec list) list" where
  "groupBy_step acc item =
     (case acc of
        Inl e \<Rightarrow> Inl e
      | Inr groups \<Rightarrow>
          (case map_of groups (jobName item) of
             Some grp \<Rightarrow> Inr (upsert (jobName item) (grp @ [item]) groups)
           | None \<Rightarrow>
               if jobName item \<in> set Object_prototype_keys then Inl TypeError
               else Inr (upsert (jobName item) [item] groups)))"

definition groupBy :: "exec list \<Rightarrow> jerror + (string \<times> exec list) list" where
  "groupBy array = foldl groupBy_step (Inr []) array"

section \<open>DataProcessor.calculateStatistics\<close>

record job_stats = basic_stats +
  totalExecutions :: nat
  uniqueAgents :: nat
  averageDuration :: duration_fmt
  minDuration :: duration_fmt
  maxDuration :: duration_fmt

text \<open>
  The body of the reducer for one entry \<^verbatim>\<open>[jobName, jobs]\<close>. Spreading \<^verbatim>\<open>null\<close> is
  harmless, reading \<^verbatim>\<open>basicStats.mean\<close> of \<^verbatim>\<open>null\<close> throws.
\<close>

definition statistics_entry :: "exec list \<Rightarrow> jerror + job_stats" where
  "statistics_entry jobs =
     (let durations = map duration jobs
      in case calculateStats durations of
           None \<Rightarrow> Inl TypeError
         | Some basicStats \<Rightarrow>
             Inr \<lparr>min_v = min_v basicStats, max_v = max_v basicStats, mean = mean basicStats,
                  std = std basicStats, count = count basicStats,
                  totalExecutions = length jobs,
                  uniqueAgents = length (remdups (map agentName jobs)),
                  averageDuration = formatDuration (mean basicStats),
                  minDuration = formatDuration (min_v basicStats),
                  maxDuration = formatDuration (max_v basicStats)\<rparr>)"

fun statistics_reduce ::
  "(string \<times> job_stats) list \<Rightarrow> (string \<times> exec list) list \<Rightarrow> jerror + (string \<times> job_stats) list" where
  "statistics_reduce stats [] = Inr stats"
| "statistics_reduce stats ((name, jobs) # entries) =
     (case statistics_entry jobs of
        Inl e \<Rightarrow> Inl e
      | Inr s \<Rightarrow> statistics_reduce (upsert name s stats) entries)"

definition calculateStatistics :: "exec list \<Rightarrow> jerror + (string \<times> job_stats) list" where
  "calculateStatistics processedData =
     (case groupBy processedData of
        Inl e \<Rightarrow> Inl e
      | Inr jobGroups \<Rightarrow> statistics_reduce [] jobGroups)"

section \<open>ExportManager.calculateOverdueAnalysis\<close>

text \<open>
  The arithmetic of the runtime on numbers: addition, subtraction, multiplication,
  division, \<^verbatim>\<open>Math.sqrt\<close> and \<^verbatim>\<open>Math.pow\<close> with a whole exponent. Comparisons,
  \<^verbatim>\<open>Math.min\<close>, \<^verbatim>\<open>Math.max\<close>, \<^verbatim>\<open>Math.floor\<close>, \<^verbatim>\<open>Math.round\<close> and \<^verbatim>\<open>%\<close> are exact on
  the numbers they are given.
\<close>

record arith =
  js_add :: "real \<Rightarrow> real \<Rightarrow> real"
  js_sub :: "real \<Rightarrow> real \<Rightarrow> real"
  js_mul :: "real \<Rightarrow> real \<Rightarrow> real"
  js_div :: "real \<Rightarrow> real \<Rightarrow> real"
  js_sqrt :: "real \<Rightarrow> real"
  js_pow :: "real \<Rightarrow> nat \<Rightarrow> real"

definition exact_arith :: arith where
  "exact_arith =
     \<lparr>js_add = (+), js_sub = (-), js_mul = (*), js_div = (/), js_sqrt = sqrt, js_pow = (^)\<rparr>"

text \<open>\<^verbatim>\<open>Utils.calculateStats\<close> and \<^verbatim>\<open>Utils.formatDuration\<close> in the arithmetic of the runtime.\<close>

definition calculateStats_fl :: "arith \<Rightarrow> real list \<Rightarrow> basic_stats option" where
  "calculateStats_fl A vals =
     (case vals of
        [] \<Rightarrow> None
      | v # vs \<Rightarrow>
          (let sum_v = foldl (js_add A) 0 vals;
               mean_v = js_div A sum_v (real (length vals));
               squaredDiffs = map (\<lambda>value. js_pow A (js_sub A value mean_v) 2) vals;
               variance = js_div A (foldl (js_add A) 0 squaredDiffs) (real (length vals))
           in Some \<lparr>min_v = foldl min v vs, max_v = foldl max v vs, mean = mean_v,
                    std = js_sqrt A variance, count = length vals\<rparr>))"

definition formatDuration_fl :: "arith \<Rightarrow> real \<Rightarrow> duration_fmt" where
  "formatDuration_fl A mins_in =
     (let h = \<lfloor>js_div A mins_in 60\<rfloor>;
          m = Math_round (js_rem mins_in 60)
      in \<lparr>formatted = decimal_int h @ ''h '' @ decimal_int m @ ''m'',
          hours = h, minutes = m, totalMinutes = mins_in\<rparr>)"

record overdue_summary =
  overdueCount :: nat
  totalExecutions_od :: nat
  overduePercentage :: real
  averageDuration_od :: duration_fmt
  standardDeviation :: duration_fmt

definition overdue_entry :: "arith \<Rightarrow> exec list \<Rightarrow> jerror + overdue_summary" where
  "overdue_entry A jobs =
     (let durations = map duration jobs
      in case calculateStats_fl A durations of
           None \<Rightarrow> Inl TypeError
         | Some stats \<Rightarrow>
             (let overdueThreshold = js_add A (mean stats) (js_mul A (std stats) OVERDUE_THRESHOLD);
                  overdueCount = length (filter (\<lambda>j. duration j > overdueThreshold) jobs)
              in Inr \<lparr>overdueCount = overdueCount,
                      totalExecutions_od = length jobs,
                      overduePercentage =
                        js_mul A (js_div A (real overdueCount) (real (length jobs))) 100,
                      averageDuration_od = formatDuration_fl A (mean stats),
                      standardDeviation = formatDuration_fl A (std stats)\<rparr>))"

fun overdue_forEach ::
  "arith \<Rightarrow> (string \<times> overdue_summary) list \<Rightarrow> (string \<times> exec list) list \<Rightarrow>
   jerror + (string \<times> overdue_summary) list" where
  "overdue_forEach A analysis [] = Inr analysis"
| "overdue_forEach A analysis ((job, jobs) # entries) =
     (case overdue_entry A jobs of
        Inl e \<Rightarrow> Inl e
      | Inr a \<Rightarrow> overdue_forEach A (upsert job a analysis) entries)"

definition calculateOverdueAnalysis ::
  "arith \<Rightarrow> exec list \<Rightarrow> jerror + (string \<times> overdue_summary) list" where
  "calculateOverdueAnalysis A data =
     (case groupBy data of
        Inl e \<Rightarrow> Inl e
      | Inr jobGroups \<Rightarrow> overdue_forEach A [] jobGroups)"

section \<open>String operations used by the date parser and the header check\<close>

text \<open>
  The white space of \<^verbatim>\<open>String.prototype.trim\<close> and of the regular expression class
  \<^verbatim>\<open>\s\<close> among the code units below 256: tab, line feed, vertical tab, form feed,
  carriage return, space and no-break space.
\<close>

definition is_space :: "char \<Rightarrow> bool" where
  "is_space c = (c \<in> set [CHR 0x09, CHR 0x0A, CHR 0x0B, CHR 0x0C, CHR 0x0D, CHR 0x20, CHR 0xA0])"

definition is_digit :: "char \<Rightarrow> bool" where
  "is_digit c = (c \<in> set ''0123456789'')"

definition trim :: "string \<Rightarrow> string" where
  "trim s = rev (dropWhile is_space (rev (dropWhile is_space s)))"

text \<open>\<^verbatim>\<open>.replace(/,/g, "")\<close>\<close>

definition remove_commas :: "string \<Rightarrow> string" where
  "remove_commas s = filter (\<lambda>c. c \<noteq> CHR '','') s"

text \<open>\<^verbatim>\<open>.replace(/\s+/g, " ")\<close>\<close>

function collapse_spaces :: "string \<Rightarrow> string" where
  "collapse_spaces [] = []"
| "collapse_spaces (c # cs) =
     (if is_space c then CHR '' '' # collapse_spaces (dropWhile is_space cs)
      else c # collapse_spaces cs)"
  by pat_completeness auto
termination
  by (relation "measure length") (auto simp: length_dropWhile_le less_Suc_eq_le)

text \<open>\<^verbatim>\<open>s.split(sep)\<close> for a separator of one character.\<close>

fun split_on :: "char \<Rightarrow> string \<Rightarrow> string list" where
  "split_on sep [] = [[]]"
| "split_on sep (c # cs) =
     (if c = sep then [] # split_on sep cs
      else (case split_on sep cs of
              [] \<Rightarrow> [[c]]
            | part # parts \<Rightarrow> (c # part) # parts))"

text \<open>An element of an array pattern \<^verbatim>\<open>[a, b, c] = parts\<close>: absent is \<^verbatim>\<open>undefined\<close>.\<close>

fun element :: "'a list \<Rightarrow> nat \<Rightarrow> 'a option" where
  "element [] i = None"
| "element (x # xs) 0 = Some x"
| "element (x # xs) (Suc i) = element xs i"

text \<open>A substitution \<^verbatim>\<open>${part}\<close> of a template literal.\<close>

fun template :: "string option \<Rightarrow> string" where
  "template None = ''undefined''"
| "template (Some s) = s"

text \<open>\<^verbatim>\<open>s.includes(sub)\<close>\<close>

fun includes_str :: "string \<Rightarrow> string \<Rightarrow> bool" where
  "includes_str [] sub = (sub = [])"
| "includes_str (c # cs) sub = (take (length sub) (c # cs) = sub \<or> includes_str cs sub)"

text \<open>
  \<^verbatim>\<open>s.replace(/(\d{2})\/(\d{2})\/(\d{4})/, "$3-$1-$2")\<close>: the leftmost match only.
  \<^term>\<open>mdy_match\<close> tries the pattern at the start of its argument and returns the
  replacement followed by the rest of the string.
\<close>

definition mdy_match :: "string \<Rightarrow> string option" where
  "mdy_match s =
     (let g1 = take 2 s; g2 = take 2 (drop 3 s); g3 = take 4 (drop 6 s)
      in if 10 \<le> length s \<and> list_all is_digit g1 \<and> s ! 2 = CHR ''/'' \<and>
            list_all is_digit g2 \<and> s ! 5 = CHR ''/'' \<and> list_all is_digit g3
         then Some (g3 @ ''-'' @ g1 @ ''-'' @ g2 @ drop 10 s)
         else None)"

fun mdy_replace :: "string \<Rightarrow> string" where
  "mdy_replace [] = []"
| "mdy_replace (c # cs) =
     (case mdy_match (c # cs) of
        Some replaced \<Rightarrow> replaced
      | None \<Rightarrow> c # mdy_replace cs)"

section \<open>DataProcessor: the date parser\<close>

text \<open>
  The value of a date cell of a row: absent, a text, or a \<^verbatim>\<open>Date\<close> object (which may
  be an \<^verbatim>\<open>Invalid Date\<close>).

  \<^verbatim>\<open>new Date(text)\<close> belongs to the JavaScript runtime, not to the repository, and what
  it accepts beyond the ISO format is left to the runtime. It is the parameter
  \<open>Date_parse\<close> of the functions below: the time value, or \<^term>\<open>None\<close> for an
  \<^verbatim>\<open>Invalid Date\<close>.
\<close>

datatype js_value = Undefined | Str string | DateObj "int option"

fun first_valid :: "int option list \<Rightarrow> int option" where
  "first_valid [] = None"
| "first_valid (Some date # formats) = Some date"
| "first_valid (None # formats) = first_valid formats"

definition format_dmy :: "(string \<Rightarrow> int option) \<Rightarrow> string \<Rightarrow> int option" where
  "format_dmy Date_parse strValue =
     (case split_on CHR '' '' strValue of
        [] \<Rightarrow> None
      | datePart # others \<Rightarrow>
          if datePart = [] then None
          else
            (let timePart = element others 0;
                 dmy = split_on CHR ''/'' datePart;
                 day = element dmy 0; month = element dmy 1; year = element dmy 2
             in case timePart of
                  Some (t # ts) \<Rightarrow>
                    Date_parse (template year @ ''-'' @ template month @ ''-'' @ template day
                                @ '' '' @ t # ts)
                | _ \<Rightarrow>
                    Date_parse (template year @ ''-'' @ template month @ ''-'' @ template day)))"

definition parse_text :: "(string \<Rightarrow> int option) \<Rightarrow> string \<Rightarrow> int option" where
  "parse_text Date_parse text =
     (let strValue = collapse_spaces (remove_commas (trim text));
          formats = [Date_parse strValue,
                     format_dmy Date_parse strValue,
                     Date_parse (mdy_replace strValue)]
      in first_valid formats)"

definition parseDateTime :: "(string \<Rightarrow> int option) \<Rightarrow> js_value \<Rightarrow> int option" where
  "parseDateTime Date_parse v =
     (case v of
        Undefined \<Rightarrow> None
      | Str [] \<Rightarrow> None
      | DateObj (Some t) \<Rightarrow> Some t
      | DateObj None \<Rightarrow> parse_text Date_parse ''Invalid Date''
      | Str s \<Rightarrow> parse_text Date_parse s)"

section \<open>DataProcessor: rows and files\<close>

text \<open>
  A row as \<^verbatim>\<open>filterRelevantColumns\<close> returns it. The two names are texts or absent
  (\<^verbatim>\<open>sheet_to_json\<close> is called with \<^verbatim>\<open>raw: false\<close>).
\<close>

record raw_row =
  raw_jobName :: "string option"
  raw_agentName :: "string option"
  raw_startDateTime :: js_value
  raw_endDateTime :: js_value

text \<open>\<^verbatim>\<open>String(x || "").trim()\<close>\<close>

fun name_text :: "string option \<Rightarrow> string" where
  "name_text None = trim []"
| "name_text (Some s) = trim s"

definition processRow :: "(string \<Rightarrow> int option) \<Rightarrow> raw_row \<Rightarrow> exec option" where
  "processRow Date_parse row =
     (case (parseDateTime Date_parse (raw_startDateTime row),
            parseDateTime Date_parse (raw_endDateTime row)) of
        (Some startDate, Some endDate) \<Rightarrow>
          (let dur = real_of_int (endDate - startDate) / (1000 * 60)
           in if dur < 0 then None
              else Some \<lparr>jobName = name_text (raw_jobName row),
                         agentName = name_text (raw_agentName row),
                         startDateTime = startDate, endDateTime = endDate,
                         duration = dur\<rparr>)
      | _ \<Rightarrow> None)"

text \<open>\<^verbatim>\<open>.filter((row) => row !== null)\<close>\<close>

fun non_null :: "'a option list \<Rightarrow> 'a list" where
  "non_null [] = []"
| "non_null (None # rows) = non_null rows"
| "non_null (Some r # rows) = r # non_null rows"

definition processFileData :: "(string \<Rightarrow> int option) \<Rightarrow> raw_row list \<Rightarrow> jerror + exec list" where
  "processFileData Date_parse data =
     (if data = [] then Inl DataError
      else Inr (non_null (map (processRow Date_parse) data)))"

text \<open>
  The value \<^verbatim>\<open>v\<close> of a sheet cell: a text, a number or a boolean. Of the numbers
  the integers are modelled, with their decimal text (the text of no number contains a
  header label). A sheet maps a cell address to the \<^verbatim>\<open>v\<close> of the cell there,
  \<^term>\<open>None\<close> where \<^verbatim>\<open>sheet[address]?.v\<close> is \<^verbatim>\<open>undefined\<close>.
\<close>

datatype xl_value = XStr string | XNum int | XBool bool

type_synonym sheet = "string \<Rightarrow> xl_value option"

fun truthy :: "xl_value \<Rightarrow> bool" where
  "truthy (XStr s) = (s \<noteq> [])"
| "truthy (XNum n) = (n \<noteq> 0)"
| "truthy (XBool b) = b"

fun toString :: "xl_value \<Rightarrow> string" where
  "toString (XStr s) = s"
| "toString (XNum n) = decimal_int n"
| "toString (XBool b) = (if b then ''true'' else ''false'')"

fun validateHeaders_loop :: "sheet \<Rightarrow> column list \<Rightarrow> jerror + unit" where
  "validateHeaders_loop sh [] = Inr ()"
| "validateHeaders_loop sh (col # cols) =
     (let cellAddress = COLUMNS col @ decimal_nat HEADER_ROW
      in case sh cellAddress of
           None \<Rightarrow> Inl (ValidationError (HEADERS col) cellAddress)
         | Some cellValue \<Rightarrow>
             if \<not> truthy cellValue \<or> \<not> includes_str (toString cellValue) (HEADERS col)
             then Inl (ValidationError (HEADERS col) cellAddress)
             else validateHeaders_loop sh cols)"

definition validateHeaders :: "sheet \<Rightarrow> jerror + unit" where
  "validateHeaders sh = validateHeaders_loop sh COLUMNS_entries"

definition filterRelevantColumns :: "raw_row list \<Rightarrow> raw_row list" where
  "filterRelevantColumns data =
     map (\<lambda>row. \<lparr>raw_jobName = raw_jobName row, raw_agentName = raw_agentName row,
                 raw_startDateTime = raw_startDateTime row,
                 raw_endDateTime = raw_endDateTime row\<rparr>) data"

text \<open>
  A selected file. Reading the bytes and the calls \<^verbatim>\<open>XLSX.read\<close> and
  \<^verbatim>\<open>XLSX.utils.sheet_to_json\<close> belong to the browser and to a third-party library: a
  file is given by what they deliver, the first sheet and the rows that
  \<^verbatim>\<open>sheet_to_json\<close> makes of it, or \<^term>\<open>None\<close> when the reader reports an error.
\<close>

record xfile =
  fname :: string
  workbook :: "(sheet \<times> raw_row list) option"

definition readFile :: "xfile \<Rightarrow> jerror + raw_row list" where
  "readFile file =
     (case workbook file of
        None \<Rightarrow> Inl (FileError None)
      | Some (firstSheet, jsonData) \<Rightarrow>
          (case validateHeaders firstSheet of
             Inl e \<Rightarrow> Inl (FileError (Some e))
           | Inr u \<Rightarrow> Inr (filterRelevantColumns jsonData)))"

section \<open>DataProcessor: state and processFiles\<close>

record DataProcessor =
  rawData :: "raw_row list"
  processedData :: "exec list"
  statistics :: "(string \<times> job_stats) list"

definition reset :: "DataProcessor \<Rightarrow> DataProcessor" where
  "reset this = \<lparr>rawData = [], processedData = [], statistics = []\<rparr>"

text \<open>The constructor calls \<^verbatim>\<open>reset\<close> on the new object.\<close>

definition new_DataProcessor :: DataProcessor where
  "new_DataProcessor = \<lparr>rawData = [], processedData = [], statistics = []\<rparr>"

text \<open>The \<^verbatim>\<open>for (const file of files)\<close> loop; an exception leaves it at once.\<close>

fun processFiles_loop ::
  "(string \<Rightarrow> int option) \<Rightarrow> xfile list \<Rightarrow> DataProcessor \<Rightarrow> (jerror + unit) \<times> DataProcessor" where
  "processFiles_loop Date_parse [] this = (Inr (), this)"
| "processFiles_loop Date_parse (file # files) this =
     (case readFile file of
        Inl e \<Rightarrow> (Inl e, this)
      | Inr fileData \<Rightarrow>
          (case processFileData Date_parse fileData of
             Inl e \<Rightarrow> (Inl e, this)
           | Inr processedFileData \<Rightarrow>
               processFiles_loop Date_parse files
                 (this\<lparr>processedData := processedData this @ processedFileData\<rparr>)))"

definition processFiles ::
  "(string \<Rightarrow> int option) \<Rightarrow> xfile list \<Rightarrow> DataProcessor \<Rightarrow> (jerror + exec list) \<times> DataProcessor" where
  "processFiles Date_parse files this =
     (case processFiles_loop Date_parse files (reset this) of
        (Inl e, this') \<Rightarrow> (Inl (ProcessingError e), this')
      | (Inr u, this') \<Rightarrow>
          (case calculateStatistics (processedData this') of
             Inl e \<Rightarrow> (Inl (ProcessingError e), this')
           | Inr stats \<Rightarrow> (Inr (processedData this'), this'\<lparr>statistics := stats\<rparr>)))"

section \<open>Notions of the specification\<close>

text \<open>
  The arithmetic mean, and the population standard deviation: the square root of the
  sum of the squared deviations from the mean divided by the count (not by the count
  less one).
\<close>

definition spec_mean :: "real list \<Rightarrow> real" where
  "spec_mean ds = sum_list ds / real (length ds)"

definition spec_population_stddev :: "real list \<Rightarrow> real" where
  "spec_population_stddev ds =
     sqrt (sum_list (map (\<lambda>d. (d - spec_mean ds) ^ 2) ds) / real (length ds))"

text \<open>The records of a job group and their durations, read off the input sequence.\<close>

definition job_group :: "string \<Rightarrow> exec list \<Rightarrow> exec list" where
  "job_group job recs = filter (\<lambda>r. jobName r = job) recs"

text \<open>
  The invariant of an execution record: a duration that is not negative, an end not
  before the start, and the duration equal to end minus start in minutes.
\<close>

definition record_invariant :: "exec \<Rightarrow> bool" where
  "record_invariant r =
     (0 \<le> duration r \<and> startDateTime r \<le> endDateTime r \<and>
      duration r = real_of_int (endDateTime r - startDateTime r) / 60000)"

text \<open>The records that the rows of one file yield: the results of \<^term>\<open>processRow\<close> that are not \<^verbatim>\<open>null\<close>.\<close>

definition file_records :: "(string \<Rightarrow> int option) \<Rightarrow> raw_row list \<Rightarrow> exec list" where
  "file_records Date_parse data = non_null (map (processRow Date_parse) data)"

text \<open>
  A header cell is present when the cell at the column letter and the header row holds
  a truthy value whose text contains the expected label.
\<close>

definition header_present :: "sheet \<Rightarrow> column \<Rightarrow> bool" where
  "header_present sh col =
     (case sh (COLUMNS col @ decimal_nat HEADER_ROW) of
        None \<Rightarrow> False
      | Some v \<Rightarrow> truthy v \<and> includes_str (toString v) (HEADERS col))"

section \<open>A reference runtime for the examples\<close>

text \<open>
  A \<^verbatim>\<open>Date\<close> parser that accepts the ISO texts \<^verbatim>\<open>YYYY-MM-DD\<close>,
  \<^verbatim>\<open>YYYY-MM-DDTHH:MM:SS\<close> and \<^verbatim>\<open>YYYY-MM-DD HH:MM:SS\<close> and nothing else, in a local
  time zone equal to UTC. It instantiates the runtime parameter in the examples; the
  general statements hold for every parser.
\<close>

definition digit_val :: "char \<Rightarrow> int" where
  "digit_val c =
     (case map_of (zip ''0123456789'' [0, 1, 2, 3, 4, 5, 6, 7, 8, 9]) c of
        Some n \<Rightarrow> n
      | None \<Rightarrow> 0)"

definition digits_val :: "string \<Rightarrow> int" where
  "digits_val s = foldl (\<lambda>a c. 10 * a + digit_val c) 0 s"

definition days_from_civil :: "int \<Rightarrow> int \<Rightarrow> int \<Rightarrow> int" where
  "days_from_civil y m d =
     (let y' = (if m \<le> 2 then y - 1 else y);
          era = y' div 400;
          yoe = y' - era * 400;
          doy = (153 * (if 2 < m then m - 3 else m + 9) + 2) div 5 + d - 1;
          doe = yoe * 365 + yoe div 4 - yoe div 100 + doy
      in era * 146097 + doe - 719468)"

definition iso_date :: "string \<Rightarrow> int option" where
  "iso_date s =
     (if length s = 10 \<and> list_all is_digit (take 4 s) \<and> s ! 4 = CHR ''-'' \<and>
         list_all is_digit (take 2 (drop 5 s)) \<and> s ! 7 = CHR ''-'' \<and>
         list_all is_digit (drop 8 s) \<and>
         1 \<le> digits_val (take 2 (drop 5 s)) \<and> digits_val (take 2 (drop 5 s)) \<le> 12 \<and>
         1 \<le> digits_val (drop 8 s) \<and> digits_val (drop 8 s) \<le> 31
      then Some (days_from_civil (digits_val (take 4 s)) (digits_val (take 2 (drop 5 s)))
                   (digits_val (drop 8 s)) * 86400000)
      else None)"

definition iso_time :: "string \<Rightarrow> int option" where
  "iso_time s =
     (if length s = 8 \<and> list_all is_digit (take 2 s) \<and> s ! 2 = CHR '':'' \<and>
         list_all is_digit (take 2 (drop 3 s)) \<and> s ! 5 = CHR '':'' \<and>
         list_all is_digit (drop 6 s) \<and>
         digits_val (take 2 s) \<le> 23 \<and> digits_val (take 2 (drop 3 s)) \<le> 59 \<and>
         digits_val (drop 6 s) \<le> 59
      then Some ((digits_val (take 2 s) * 3600 + digits_val (take 2 (drop 3 s)) * 60
                  + digits_val (drop 6 s)) * 1000)
      else None)"

definition iso_Date_parse :: "string \<Rightarrow> int option" where
  "iso_Date_parse s =
     (if length s = 10 then iso_date s
      else if length s = 19 \<and> (s ! 10 = CHR ''T'' \<or> s ! 10 = CHR '' '')
      then (case (iso_date (take 10 s), iso_time (drop 11 s)) of
              (Some d, Some t) \<Rightarrow> Some (d + t)
            | _ \<Rightarrow> None)
      else None)"

section \<open>IEEE double arithmetic\<close>

text \<open>
  One instance of the arithmetic: every operation returns the exact result rounded to
  the nearest number with a significand of 53 bits, a tie going to the even
  significand. \<^term>\<open>dbl m e\<close> is the number with significand \<open>m\<close> and exponent \<open>e\<close>. The
  range of exponents is not bounded: there is no overflow and there are no subnormal
  numbers, and \<^verbatim>\<open>Math.pow\<close> is taken as correctly rounded.
\<close>

definition round_half_even :: "real \<Rightarrow> int" where
  "round_half_even x =
     (let f = \<lfloor>x\<rfloor>
      in if x - real_of_int f < 1 / 2 then f
         else if 1 / 2 < x - real_of_int f then f + 1
         else if even f then f else f + 1)"

definition dbl :: "int \<Rightarrow> int \<Rightarrow> real" where
  "dbl m e = real_of_int m * 2 powr real_of_int e"

definition double_round :: "real \<Rightarrow> real" where
  "double_round x =
     (if x = 0 then 0
      else let e = \<lfloor>log 2 \<bar>x\<bar>\<rfloor> - 52
           in dbl (round_half_even (x / 2 powr real_of_int e)) e)"

definition ieee_arith :: arith where
  "ieee_arith =
     \<lparr>js_add = (\<lambda>a b. double_round (a + b)), js_sub = (\<lambda>a b. double_round (a - b)),
      js_mul = (\<lambda>a b. double_round (a * b)), js_div = (\<lambda>a b. double_round (a / b)),
      js_sqrt = (\<lambda>a. double_round (sqrt a)), js_pow = (\<lambda>a n. double_round (a ^ n))\<rparr>"

section \<open>Example data\<close>

text \<open>A record as \<^term>\<open>processRow\<close> builds it for a run of the given number of minutes.\<close>

definition example_run :: "string \<Rightarrow> string \<Rightarrow> int \<Rightarrow> exec" where
  "example_run job agent mins =
     \<lparr>jobName = job, agentName = agent, startDateTime = 0, endDateTime = mins * 60000,
      duration = real_of_int mins\<rparr>"

definition example_records :: "exec list" where
  "example_records =
     [example_run ''A'' ''x'' 10, example_run ''B'' ''y'' 5,
      example_run ''A'' ''y'' 20, example_run ''A'' ''x'' 30]"

definition example_row :: "string \<Rightarrow> string \<Rightarrow> string \<Rightarrow> string \<Rightarrow> raw_row" where
  "example_row job agent start end =
     \<lparr>raw_jobName = Some job, raw_agentName = Some agent,
      raw_startDateTime = Str start, raw_endDateTime = Str end\<rparr>"

definition example_rows :: "raw_row list" where
  "example_rows =
     [example_row ''backup'' ''srv1'' ''15/03/2024 10:30:00'' ''15/03/2024 10:45:00'',
      example_row ''backup'' ''srv1'' ''2024-03-15T11:00:00'' ''not-a-date'',
      example_row '' sync '' ''srv2'' ''2024-03-16 08:00:00'' ''2024-03-16 08:20:00'']"

definition example_sheet :: sheet where
  "example_sheet =
     [''A9'' \<mapsto> XStr ''Job Name'', ''E9'' \<mapsto> XStr ''Agent Name'',
      ''O9'' \<mapsto> XStr ''Start Date, Time'', ''Q9'' \<mapsto> XStr ''End Date, Time'']"

definition example_rows_2 :: "raw_row list" where
  "example_rows_2 =
     [example_row ''sync'' ''srv2'' ''2024-03-17 08:00:00'' ''2024-03-17 07:00:00'',
      example_row ''backup'' ''srv3'' ''2024-03-17 10:00:00'' ''2024-03-17 10:10:00'']"

definition example_file_1 :: xfile where
  "example_file_1 = \<lparr>fname = ''first.xlsx'', workbook = Some (example_sheet, example_rows)\<rparr>"

definition example_file_2 :: xfile where
  "example_file_2 = \<lparr>fname = ''second.xlsx'', workbook = Some (example_sheet, example_rows_2)\<rparr>"

definition example_sheet_loose :: sheet where
  "example_sheet_loose = example_sheet(''A9'' \<mapsto> XStr ''Old Job Name (v2)'')"

definition example_sheet_missing :: sheet where
  "example_sheet_missing = example_sheet(''E9'' := None)"

definition example_file_missing :: xfile where
  "example_file_missing =
     \<lparr>fname = ''missing.xlsx'', workbook = Some (example_sheet_missing, example_rows_2)\<rparr>"

definition example_file_empty :: xfile where
  "example_file_empty = \<lparr>fname = ''empty.xlsx'', workbook = Some (example_sheet, [])\<rparr>"

definition example_file_invalid :: xfile where
  "example_file_invalid =
     \<lparr>fname = ''invalid.xlsx'',
      workbook = Some (example_sheet,
                       [example_row ''backup'' ''srv1'' ''not-a-date'' ''not-a-date''])\<rparr>"

definition example_file_constructor :: xfile where
  "example_file_constructor =
     \<lparr>fname = ''jobs.xlsx'',
      workbook = Some (example_sheet,
        [example_row ''backup'' ''srv1'' ''2024-03-17 10:00:00'' ''2024-03-17 10:10:00'',
         example_row ''constructor'' ''srv1'' ''2024-03-17 10:00:00'' ''2024-03-17 10:10:00''])\<rparr>"

text \<open>
  Two runs of one job, of 1 second and of 63 seconds: the durations in minutes as
  \<^verbatim>\<open>processRow\<close> stores them in double arithmetic, \<open>1000 / 60000\<close> and \<open>63000 / 60000\<close>
  rounded. Three runs of 5 minutes of another job follow.
\<close>

definition tie_short :: real where
  "tie_short = dbl 4803839602528529 (- 58)"

definition tie_long :: real where
  "tie_long = dbl 4728779608739021 (- 52)"


section \<open>Utils.calculateStats and Utils.groupBy\<close>

lemma foldl_add_sum_list: "foldl (+) a (xs :: real list) = a + sum_list xs"
  by (induction xs arbitrary: a) simp_all

lemma foldl_min_Min: "foldl min (v :: real) vs = Min (set (v # vs))"
proof (induction vs arbitrary: v)
  case Nil
  show ?case by simp
next
  case (Cons a vs)
  have "foldl min v (a # vs) = Min (set (min v a # vs))"
    using Cons.IH [of "min v a"] by simp
  also have "\<dots> = Min (set (v # a # vs))"
    by (cases "vs = []") (simp_all add: min.assoc)
  finally show ?case .
qed

lemma foldl_max_Max: "foldl max (v :: real) vs = Max (set (v # vs))"
proof (induction vs arbitrary: v)
  case Nil
  show ?case by simp
next
  case (Cons a vs)
  have "foldl max v (a # vs) = Max (set (max v a # vs))"
    using Cons.IH [of "max v a"] by simp
  also have "\<dots> = Max (set (v # a # vs))"
    by (cases "vs = []") (simp_all add: max.assoc)
  finally show ?case .
qed

lemma calculateStats_Nil: "calculateStats [] = None"
  by (simp add: calculateStats_def)

lemma calculateStats_spec:
  assumes "vals \<noteq> []"
  shows "calculateStats vals =
           Some \<lparr>min_v = Min (set vals), max_v = Max (set vals), mean = spec_mean vals,
                 std = spec_population_stddev vals, count = length vals\<rparr>"
proof -
  obtain v vs where vals: "vals = v # vs"
    using assms by (cases vals) auto
  show ?thesis
    unfolding vals calculateStats_def spec_mean_def spec_population_stddev_def
    by (simp add: foldl_add_sum_list foldl_min_Min foldl_max_Max Let_def del: foldl_Cons set_simps)
qed

lemma upsert_map_of: "map_of (upsert k v kvs) = (map_of kvs)(k \<mapsto> v)"
  by (induction kvs) (auto simp: fun_eq_iff)

lemma upsert_keys: "fst ` set (upsert k v kvs) = insert k (fst ` set kvs)"
  by (induction k v kvs rule: upsert.induct) (simp_all add: insert_commute)

lemma upsert_distinct: "distinct (map fst kvs) \<Longrightarrow> distinct (map fst (upsert k v kvs))"
  by (induction k v kvs rule: upsert.induct) (auto simp: upsert_keys)

lemma groupBy_snoc: "groupBy (xs @ [x]) = groupBy_step (groupBy xs) x"
  by (simp add: groupBy_def)

lemma groupBy_Nil: "groupBy [] = Inr []"
  by (simp add: groupBy_def)

lemma groupBy_groups:
  "groupBy xs = Inr g \<Longrightarrow>
     distinct (map fst g) \<and> set (map fst g) = jobName ` set xs \<and>
     (\<forall>k. map_of g k = (if k \<in> jobName ` set xs then Some (job_group k xs) else None))"
proof (induction xs arbitrary: g rule: rev_induct)
  case Nil
  then show ?case by (simp add: groupBy_Nil)
next
  case (snoc x xs)
  from snoc.prems obtain g0 where g0: "groupBy xs = Inr g0"
    by (cases "groupBy xs") (simp_all add: groupBy_snoc groupBy_step_def)
  note IH = snoc.IH [OF g0]
  show ?case
  proof (cases "map_of g0 (jobName x)")
    case None
    with snoc.prems g0 have g: "g = upsert (jobName x) [x] g0"
      by (simp add: groupBy_snoc groupBy_step_def split: if_splits)
    from None IH have notin: "jobName x \<notin> jobName ` set xs"
      by (metis option.distinct(1))
    then have "job_group (jobName x) xs = []"
      unfolding job_group_def filter_empty_conv by (metis imageI)
    with IH notin show ?thesis
      unfolding g by (auto simp: upsert_map_of upsert_keys upsert_distinct job_group_def)
  next
    case (Some grp)
    with snoc.prems g0 have g: "g = upsert (jobName x) (grp @ [x]) g0"
      by (simp add: groupBy_snoc groupBy_step_def)
    from Some IH have grp: "jobName x \<in> jobName ` set xs" "grp = job_group (jobName x) xs"
      by (metis option.distinct(1), metis option.distinct(1) option.inject)
    with IH show ?thesis
      unfolding g by (auto simp: upsert_map_of upsert_keys upsert_distinct job_group_def)
  qed
qed

lemma groupBy_succeeds:
  "(\<exists>g. groupBy xs = Inr g) \<longleftrightarrow> (\<forall>r \<in> set xs. jobName r \<notin> set Object_prototype_keys)"
proof (induction xs rule: rev_induct)
  case Nil
  show ?case by (simp add: groupBy_Nil)
next
  case (snoc x xs)
  show ?case
  proof (cases "groupBy xs")
    case (Inl e)
    with snoc show ?thesis
      by (auto simp: groupBy_snoc groupBy_step_def)
  next
    case (Inr g0)
    note G = groupBy_groups [OF Inr]
    show ?thesis
    proof (cases "jobName x \<in> jobName ` set xs")
      case True
      with G have "map_of g0 (jobName x) = Some (job_group (jobName x) xs)" by simp
      moreover from True snoc Inr have "jobName x \<notin> set Object_prototype_keys" by auto
      ultimately show ?thesis using snoc Inr
        by (auto simp: groupBy_snoc groupBy_step_def)
    next
      case False
      with G have "map_of g0 (jobName x) = None" by simp
      then show ?thesis using snoc Inr
        by (auto simp: groupBy_snoc groupBy_step_def)
    qed
  qed
qed

section \<open>The statistics of a job group\<close>

lemma statistics_entry_spec:
  assumes "jobs \<noteq> []"
  shows "\<exists>s. statistics_entry jobs = Inr s \<and>
           mean s = spec_mean (map duration jobs) \<and>
           std s = spec_population_stddev (map duration jobs) \<and>
           min_v s = Min (set (map duration jobs)) \<and>
           max_v s = Max (set (map duration jobs)) \<and>
           count s = length jobs \<and> totalExecutions s = length jobs \<and>
           uniqueAgents s = card (agentName ` set jobs)"
proof -
  from assms have "map duration jobs \<noteq> []" by simp
  from calculateStats_spec [OF this] show ?thesis
    by (simp add: statistics_entry_def length_remdups_card_conv)
qed

lemma statistics_reduce_spec:
  assumes "distinct (map fst gs)" and "\<forall>(k, jobs) \<in> set gs. jobs \<noteq> []"
  shows "\<exists>res. statistics_reduce acc gs = Inr res \<and>
           fst ` set res = fst ` set acc \<union> fst ` set gs \<and>
           (distinct (map fst acc) \<longrightarrow> distinct (map fst res)) \<and>
           (\<forall>k. case map_of gs k of
                  None \<Rightarrow> map_of res k = map_of acc k
                | Some jobs \<Rightarrow> (\<exists>s. statistics_entry jobs = Inr s \<and> map_of res k = Some s))"
  using assms
proof (induction gs arbitrary: acc)
  case Nil
  then show ?case by simp
next
  case (Cons g gs)
  obtain name jobs where g: "g = (name, jobs)" by (cases g)
  from Cons.prems g have jobs: "jobs \<noteq> []" and name: "name \<notin> fst ` set gs"
    and dist: "distinct (map fst gs)" and rest: "\<forall>(k, jobs) \<in> set gs. jobs \<noteq> []"
    by auto
  from statistics_entry_spec [OF jobs] obtain s where s: "statistics_entry jobs = Inr s"
    by blast
  from Cons.IH [OF dist rest, of "upsert name s acc"]
  obtain res where res: "statistics_reduce (upsert name s acc) gs = Inr res"
    and keys: "fst ` set res = fst ` set (upsert name s acc) \<union> fst ` set gs"
    and d: "distinct (map fst (upsert name s acc)) \<longrightarrow> distinct (map fst res)"
    and m: "\<forall>k. case map_of gs k of
                  None \<Rightarrow> map_of res k = map_of (upsert name s acc) k
                | Some jobs \<Rightarrow> (\<exists>s. statistics_entry jobs = Inr s \<and> map_of res k = Some s)"
    by blast
  have none: "map_of gs name = None"
    using name by (simp add: map_of_eq_None_iff)
  have "statistics_reduce acc (g # gs) = Inr res"
    by (simp add: g s res)
  moreover have "fst ` set res = fst ` set acc \<union> fst ` set (g # gs)"
    using keys by (auto simp: upsert_keys g)
  moreover have "distinct (map fst acc) \<longrightarrow> distinct (map fst res)"
    using d by (simp add: upsert_distinct)
  moreover have "\<forall>k. case map_of (g # gs) k of
                  None \<Rightarrow> map_of res k = map_of acc k
                | Some jobs \<Rightarrow> (\<exists>s. statistics_entry jobs = Inr s \<and> map_of res k = Some s)"
  proof
    fix k
    show "case map_of (g # gs) k of
                  None \<Rightarrow> map_of res k = map_of acc k
                | Some jobs \<Rightarrow> (\<exists>s. statistics_entry jobs = Inr s \<and> map_of res k = Some s)"
    proof (cases "k = name")
      case True
      with m [rule_format, of name] none show ?thesis
        by (simp add: g s upsert_map_of)
    next
      case False
      with m [rule_format, of k] show ?thesis
        by (simp add: g upsert_map_of split: option.splits)
    qed
  qed
  ultimately show ?case by blast
qed

lemma groups_nonempty:
  assumes "groupBy recs = Inr g"
  shows "\<forall>(k, jobs) \<in> set g. jobs \<noteq> []"
proof (clarify)
  fix k assume "(k, []) \<in> set g"
  moreover from groupBy_groups [OF assms] have "distinct (map fst g)" by simp
  ultimately have "map_of g k = Some []" by simp
  with groupBy_groups [OF assms] have "k \<in> jobName ` set recs" "job_group k recs = []"
    by (metis option.distinct(1), metis option.distinct(1) option.inject)
  then show False
    by (auto simp: job_group_def filter_empty_conv)
qed

lemma calculateStatistics_groups:
  assumes "groupBy recs = Inr g"
  shows "\<exists>stats. calculateStatistics recs = Inr stats \<and> distinct (map fst stats) \<and>
           fst ` set stats = jobName ` set recs \<and>
           (\<forall>job jobs. map_of g job = Some jobs \<longrightarrow>
              (\<exists>s. statistics_entry jobs = Inr s \<and> map_of stats job = Some s))"
proof -
  note G = groupBy_groups [OF assms]
  from statistics_reduce_spec [of g "[]", OF _ groups_nonempty [OF assms]] G
  obtain res where res: "statistics_reduce [] g = Inr res"
    and keys: "fst ` set res = fst ` set g"
    and d: "distinct (map fst res)"
    and m: "\<forall>k. case map_of g k of
                  None \<Rightarrow> map_of res k = map_of [] k
                | Some jobs \<Rightarrow> (\<exists>s. statistics_entry jobs = Inr s \<and> map_of res k = Some s)"
    by auto
  have "calculateStatistics recs = Inr res"
    by (simp add: calculateStatistics_def assms res)
  moreover from keys G have "fst ` set res = jobName ` set recs" by simp
  moreover have "\<forall>job jobs. map_of g job = Some jobs \<longrightarrow>
              (\<exists>s. statistics_entry jobs = Inr s \<and> map_of res job = Some s)"
    using m by (auto split: option.splits dest: spec)
  ultimately show ?thesis using d by blast
qed

text \<open>
  Claim C1. For every job group that \<^verbatim>\<open>Utils.groupBy\<close> forms, the group holds the
  records of that job name in input order and is not empty, and
  \<^verbatim>\<open>DataProcessor.calculateStatistics\<close> returns for it the arithmetic mean of the
  durations, the population standard deviation (the sum of squared deviations divided
  by the count), the minimum, the maximum and the count. For the durations 10, 20, 30
  \<^verbatim>\<open>Utils.calculateStats\<close> returns mean 20, standard deviation \<open>sqrt (200 / 3)\<close>, minimum
  10, maximum 30 and count 3.
\<close>

theorem statistics_per_job_group:
  assumes "groupBy recs = Inr groups" and "map_of groups job = Some jobs"
  shows "jobs = job_group job recs \<and> jobs \<noteq> [] \<and>
         (\<exists>stats s. calculateStatistics recs = Inr stats \<and> map_of stats job = Some s \<and>
            mean s = spec_mean (map duration jobs) \<and>
            std s = spec_population_stddev (map duration jobs) \<and>
            min_v s = Min (set (map duration jobs)) \<and>
            max_v s = Max (set (map duration jobs)) \<and>
            count s = length jobs) \<and>
         calculateStats [10, 20, 30] =
           Some \<lparr>min_v = 10, max_v = 30, mean = 20, std = sqrt (200 / 3), count = 3\<rparr>"
proof -
  note G = groupBy_groups [OF assms(1)]
  from G assms(2) have jobs: "jobs = job_group job recs"
    by (metis option.distinct(1) option.inject)
  from groups_nonempty [OF assms(1)] assms(2) have ne: "jobs \<noteq> []"
    by (auto dest: map_of_SomeD)
  from calculateStatistics_groups [OF assms(1)] assms(2)
  obtain stats s where "calculateStatistics recs = Inr stats"
    and "statistics_entry jobs = Inr s" and "map_of stats job = Some s"
    by blast
  moreover from statistics_entry_spec [OF ne] \<open>statistics_entry jobs = Inr s\<close>
  have "mean s = spec_mean (map duration jobs) \<and>
        std s = spec_population_stddev (map duration jobs) \<and>
        min_v s = Min (set (map duration jobs)) \<and>
        max_v s = Max (set (map duration jobs)) \<and> count s = length jobs"
    by auto
  moreover have "calculateStats [10, 20, 30] =
           Some \<lparr>min_v = 10, max_v = 30, mean = 20, std = sqrt (200 / 3), count = 3\<rparr>"
    by (simp add: calculateStats_def power2_eq_square)
  ultimately show ?thesis using jobs ne by blast
qed

theorem statistics_per_job_group_witness:
  "groupBy example_records =
     Inr [(''A'', [example_run ''A'' ''x'' 10, example_run ''A'' ''y'' 20,
                   example_run ''A'' ''x'' 30]),
          (''B'', [example_run ''B'' ''y'' 5])] \<and>
   (\<exists>stats s. calculateStatistics example_records = Inr stats \<and>
      map_of stats ''A'' = Some s \<and> mean s = 20 \<and> std s = sqrt (200 / 3) \<and>
      min_v s = 10 \<and> max_v s = 30 \<and> count s = 3)"
proof -
  have g: "groupBy example_records =
     Inr [(''A'', [example_run ''A'' ''x'' 10, example_run ''A'' ''y'' 20,
                   example_run ''A'' ''x'' 30]),
          (''B'', [example_run ''B'' ''y'' 5])]"
    by (simp add: groupBy_def groupBy_step_def example_records_def example_run_def
        Object_prototype_keys_def)
  have m: "map_of [(''A'', [example_run ''A'' ''x'' 10, example_run ''A'' ''y'' 20,
                   example_run ''A'' ''x'' 30]),
          (''B'', [example_run ''B'' ''y'' 5])] ''A'' =
        Some [example_run ''A'' ''x'' 10, example_run ''A'' ''y'' 20, example_run ''A'' ''x'' 30]"
    by simp
  from statistics_per_job_group [OF g m]
  have "\<exists>stats s. calculateStatistics example_records = Inr stats \<and>
      map_of stats ''A'' = Some s \<and> mean s = 20 \<and> std s = sqrt (200 / 3) \<and>
      min_v s = 10 \<and> max_v s = 30 \<and> count s = 3"
    by (simp add: spec_mean_def spec_population_stddev_def example_run_def
        power2_eq_square numeral_3_eq_3)
  with g show ?thesis by blast
qed

section \<open>The Row Normalizer\<close>

lemma non_null_append: "non_null (xs @ ys) = non_null xs @ non_null ys"
  by (induction xs rule: non_null.induct) simp_all

lemma non_null_filter: "map Some (non_null xs) = filter (\<lambda>r. r \<noteq> None) xs"
  by (induction xs rule: non_null.induct) simp_all

lemma set_non_null: "set (non_null xs) = {x. Some x \<in> set xs}"
  by (induction xs rule: non_null.induct) auto

lemma processRow_Some:
  "processRow P row = Some r \<longleftrightarrow>
     (\<exists>s e. parseDateTime P (raw_startDateTime row) = Some s \<and>
            parseDateTime P (raw_endDateTime row) = Some e \<and> s \<le> e \<and>
            r = \<lparr>jobName = name_text (raw_jobName row),
                 agentName = name_text (raw_agentName row),
                 startDateTime = s, endDateTime = e,
                 duration = real_of_int (e - s) / 60000\<rparr>)"
  by (auto simp: processRow_def Let_def split: option.splits)

lemma processRow_None:
  "processRow P row = None \<longleftrightarrow>
     (parseDateTime P (raw_startDateTime row) = None \<or>
      parseDateTime P (raw_endDateTime row) = None \<or>
      (\<exists>s e. parseDateTime P (raw_startDateTime row) = Some s \<and>
             parseDateTime P (raw_endDateTime row) = Some e \<and> e < s))"
  by (auto simp: processRow_def Let_def split: option.splits)

lemma processRow_invariant: "processRow P row = Some r \<Longrightarrow> record_invariant r"
  by (auto simp: processRow_Some record_invariant_def)

lemma processFileData_invariant:
  assumes "processFileData P data = Inr recs" and "r \<in> set recs"
  shows "record_invariant r"
proof -
  from assms have "Some r \<in> set (map (processRow P) data)"
    by (auto simp: processFileData_def set_non_null split: if_splits)
  then obtain x where "processRow P x = Some r"
    by (auto simp: image_iff)
  then show ?thesis by (rule processRow_invariant)
qed

text \<open>
  Claim C5. A data row whose start or end value does not parse as a date, or whose end
  lies before its start (a negative duration; with two parsed dates the duration is
  never \<^verbatim>\<open>NaN\<close>), is dropped by \<^verbatim>\<open>processRow\<close> without aborting the file:
  \<^verbatim>\<open>processFileData\<close> returns the records of the rows before it followed by the records
  of the rows after it, so every other valid row of the file is kept.
\<close>

theorem invalid_row_dropped:
  assumes "parseDateTime P (raw_startDateTime row) = None \<or>
           parseDateTime P (raw_endDateTime row) = None \<or>
           (\<exists>s e. parseDateTime P (raw_startDateTime row) = Some s \<and>
                  parseDateTime P (raw_endDateTime row) = Some e \<and> e < s)"
  shows "processRow P row = None \<and>
         processFileData P (before @ row # after) =
           Inr (non_null (map (processRow P) before) @ non_null (map (processRow P) after)) \<and>
         (\<forall>r x. r \<in> set (before @ after) \<and> processRow P r = Some x \<longrightarrow>
            (\<exists>out. processFileData P (before @ row # after) = Inr out \<and> x \<in> set out))"
proof -
  from assms have none: "processRow P row = None"
    by (simp add: processRow_None)
  then have out: "processFileData P (before @ row # after) =
           Inr (non_null (map (processRow P) before) @ non_null (map (processRow P) after))"
    by (simp add: processFileData_def non_null_append)
  have "\<forall>r x. r \<in> set (before @ after) \<and> processRow P r = Some x \<longrightarrow>
            (\<exists>out. processFileData P (before @ row # after) = Inr out \<and> x \<in> set out)"
    unfolding out by (force simp: set_non_null)
  with none out show ?thesis by blast
qed

lemma example_dates:
  "parseDateTime iso_Date_parse (Str ''15/03/2024 10:30:00'') = Some 1710498600000"
  "parseDateTime iso_Date_parse (Str ''15/03/2024 10:45:00'') = Some 1710499500000"
  "parseDateTime iso_Date_parse (Str ''2024-03-15T11:00:00'') = Some 1710500400000"
  "parseDateTime iso_Date_parse (Str ''not-a-date'') = None"
  "parseDateTime iso_Date_parse (Str ''2024-03-16 08:00:00'') = Some 1710576000000"
  "parseDateTime iso_Date_parse (Str ''2024-03-16 08:20:00'') = Some 1710577200000"
  by code_simp+

lemma example_names:
  "trim ''backup'' = ''backup''" "trim '' sync '' = ''sync''"
  "trim ''srv1'' = ''srv1''" "trim ''srv2'' = ''srv2''"
  by code_simp+

theorem invalid_row_dropped_witness:
  "parseDateTime iso_Date_parse (Str ''not-a-date'') = None \<and>
   processRow iso_Date_parse
     (example_row ''backup'' ''srv1'' ''2024-03-15T11:00:00'' ''not-a-date'') = None \<and>
   processFileData iso_Date_parse example_rows =
     Inr [\<lparr>jobName = ''backup'', agentName = ''srv1'', startDateTime = 1710498600000,
           endDateTime = 1710499500000, duration = 15\<rparr>,
          \<lparr>jobName = ''sync'', agentName = ''srv2'', startDateTime = 1710576000000,
           endDateTime = 1710577200000, duration = 20\<rparr>]"
proof -
  have bad: "parseDateTime iso_Date_parse (Str ''not-a-date'') = None"
    by (rule example_dates)
  have hyp: "parseDateTime iso_Date_parse (raw_startDateTime
               (example_row ''backup'' ''srv1'' ''2024-03-15T11:00:00'' ''not-a-date'')) = None \<or>
           parseDateTime iso_Date_parse (raw_endDateTime
               (example_row ''backup'' ''srv1'' ''2024-03-15T11:00:00'' ''not-a-date'')) = None \<or>
           (\<exists>s e. parseDateTime iso_Date_parse (raw_startDateTime
               (example_row ''backup'' ''srv1'' ''2024-03-15T11:00:00'' ''not-a-date'')) = Some s \<and>
                  parseDateTime iso_Date_parse (raw_endDateTime
               (example_row ''backup'' ''srv1'' ''2024-03-15T11:00:00'' ''not-a-date'')) = Some e \<and> e < s)"
    by (simp add: example_row_def bad)
  from invalid_row_dropped [OF hyp,
      of "[example_row ''backup'' ''srv1'' ''15/03/2024 10:30:00'' ''15/03/2024 10:45:00'']"
         "[example_row '' sync '' ''srv2'' ''2024-03-16 08:00:00'' ''2024-03-16 08:20:00'']"]
  show ?thesis
    by (simp add: bad example_rows_def example_row_def processRow_def example_dates example_names)
qed

section \<open>Files and batches\<close>

lemma filterRelevantColumns_id: "filterRelevantColumns data = data"
  by (induction data) (simp_all add: filterRelevantColumns_def)

lemma processFileData_records:
  "data \<noteq> [] \<Longrightarrow> processFileData P data = Inr (file_records P data)"
  by (simp add: processFileData_def file_records_def)

lemma processFiles_loop_append:
  assumes "list_all2 (\<lambda>f d. readFile f = Inr d \<and> d \<noteq> []) pre datas"
  shows "processFiles_loop P (pre @ rest) this =
           processFiles_loop P rest
             (this\<lparr>processedData := processedData this @ concat (map (file_records P) datas)\<rparr>)"
  using assms
proof (induction pre datas arbitrary: this rule: list_all2_induct)
  case Nil
  show ?case by simp
next
  case (Cons f d pre datas)
  then show ?case
    by (simp add: processFileData_records)
qed

lemma processFiles_loop_success:
  assumes "list_all2 (\<lambda>f d. readFile f = Inr d \<and> d \<noteq> []) files datas"
  shows "processFiles_loop P files this =
           (Inr (), this\<lparr>processedData := processedData this @ concat (map (file_records P) datas)\<rparr>)"
  using processFiles_loop_append [OF assms, of P "[]" this] by simp

lemma processFiles_loop_Inr:
  "processFiles_loop P files this = (Inr u, this') \<Longrightarrow>
     \<exists>datas. list_all2 (\<lambda>f d. readFile f = Inr d \<and> d \<noteq> []) files datas \<and>
       this' = this\<lparr>processedData := processedData this @ concat (map (file_records P) datas)\<rparr>"
proof (induction files arbitrary: this)
  case Nil
  then show ?case by simp
next
  case (Cons f files)
  from Cons.prems obtain d where d: "readFile f = Inr d"
    by (cases "readFile f") simp_all
  from Cons.prems d have ne: "d \<noteq> []"
    by (auto simp: processFileData_def)
  from Cons.prems d ne
  have "processFiles_loop P files (this\<lparr>processedData := processedData this @ file_records P d\<rparr>)
          = (Inr u, this')"
    by (simp add: processFileData_records)
  from Cons.IH [OF this] obtain datas
    where "list_all2 (\<lambda>f d. readFile f = Inr d \<and> d \<noteq> []) files datas"
      and "this' = this\<lparr>processedData := processedData this @ file_records P d
                            @ concat (map (file_records P) datas)\<rparr>"
    by auto
  with d ne show ?case
    by (intro exI [of _ "d # datas"]) simp
qed

lemma processFiles_loop_bad_file:
  assumes "f \<in> set files" and "readFile f = Inl e \<or> readFile f = Inr []"
  shows "\<exists>e' this'. processFiles_loop P files this = (Inl e', this')"
  using assms(1)
proof (induction files arbitrary: this)
  case Nil
  then show ?case by simp
next
  case (Cons g files)
  show ?case
  proof (cases "processFiles_loop P (g # files) this")
    case (Pair res this')
    show ?thesis
    proof (cases res)
      case (Inl e')
      with Pair show ?thesis by blast
    next
      case (Inr u)
      from processFiles_loop_Inr [OF Pair [unfolded Inr]]
      obtain datas where "list_all2 (\<lambda>f d. readFile f = Inr d \<and> d \<noteq> []) (g # files) datas"
        by blast
      with Cons.prems have "\<exists>d. readFile f = Inr d \<and> d \<noteq> []"
        by (auto simp: list_all2_conv_all_nth in_set_conv_nth)
      with assms(2) show ?thesis by auto
    qed
  qed
qed

lemma processFiles_Inr:
  "fst (processFiles P files this) = Inr out \<Longrightarrow>
     \<exists>datas. list_all2 (\<lambda>f d. readFile f = Inr d \<and> d \<noteq> []) files datas \<and>
       out = concat (map (file_records P) datas)"
proof -
  assume a: "fst (processFiles P files this) = Inr out"
  obtain res this' where l: "processFiles_loop P files (reset this) = (res, this')"
    by (cases "processFiles_loop P files (reset this)")
  from a l obtain u where res: "res = Inr u"
    by (cases res) (simp_all add: processFiles_def)
  from a l res have out: "out = processedData this'"
    by (simp add: processFiles_def split: sum.splits)
  from processFiles_loop_Inr [OF l [unfolded res]] out show ?thesis
    by (auto simp: reset_def)
qed

lemma processFiles_success:
  assumes "list_all2 (\<lambda>f d. readFile f = Inr d \<and> d \<noteq> []) files datas"
    and "groupBy (concat (map (file_records P) datas)) = Inr groups"
  shows "fst (processFiles P files this) = Inr (concat (map (file_records P) datas)) \<and>
         processedData (snd (processFiles P files this)) = concat (map (file_records P) datas)"
proof -
  from calculateStatistics_groups [OF assms(2)] obtain stats
    where "calculateStatistics (concat (map (file_records P) datas)) = Inr stats"
    by blast
  then show ?thesis
    by (simp add: processFiles_def processFiles_loop_success [OF assms(1)] reset_def)
qed

lemma example_dates_2:
  "parseDateTime iso_Date_parse (Str ''2024-03-17 08:00:00'') = Some 1710662400000"
  "parseDateTime iso_Date_parse (Str ''2024-03-17 07:00:00'') = Some 1710658800000"
  "parseDateTime iso_Date_parse (Str ''2024-03-17 10:00:00'') = Some 1710669600000"
  "parseDateTime iso_Date_parse (Str ''2024-03-17 10:10:00'') = Some 1710670200000"
  by code_simp+

lemma example_names_2: "trim ''srv3'' = ''srv3''" "trim ''sync'' = ''sync''"
  by code_simp+

lemma example_file_records:
  "file_records iso_Date_parse example_rows =
     [\<lparr>jobName = ''backup'', agentName = ''srv1'', startDateTime = 1710498600000,
       endDateTime = 1710499500000, duration = 15\<rparr>,
      \<lparr>jobName = ''sync'', agentName = ''srv2'', startDateTime = 1710576000000,
       endDateTime = 1710577200000, duration = 20\<rparr>]"
  "file_records iso_Date_parse example_rows_2 =
     [\<lparr>jobName = ''backup'', agentName = ''srv3'', startDateTime = 1710669600000,
       endDateTime = 1710670200000, duration = 10\<rparr>]"
  by (simp_all add: file_records_def example_rows_def example_rows_2_def example_row_def
      processRow_def example_dates example_dates_2 example_names example_names_2)

lemma example_sheet_valid: "validateHeaders example_sheet = Inr ()"
  by code_simp

lemma example_files_read:
  "readFile example_file_1 = Inr example_rows" "readFile example_file_2 = Inr example_rows_2"
  by (simp_all add: readFile_def example_file_1_def example_file_2_def example_sheet_valid
      filterRelevantColumns_id)

lemma example_rows_nonempty: "example_rows \<noteq> []" "example_rows_2 \<noteq> []"
  by (simp_all add: example_rows_def example_rows_2_def)

lemma example_groupBy:
  "groupBy (concat (map (file_records iso_Date_parse) [example_rows, example_rows_2])) =
     Inr [(''backup'',
           [\<lparr>jobName = ''backup'', agentName = ''srv1'', startDateTime = 1710498600000,
             endDateTime = 1710499500000, duration = 15\<rparr>,
            \<lparr>jobName = ''backup'', agentName = ''srv3'', startDateTime = 1710669600000,
             endDateTime = 1710670200000, duration = 10\<rparr>]),
          (''sync'',
           [\<lparr>jobName = ''sync'', agentName = ''srv2'', startDateTime = 1710576000000,
             endDateTime = 1710577200000, duration = 20\<rparr>])]"
  by (simp add: example_file_records groupBy_def groupBy_step_def Object_prototype_keys_def)

text \<open>
  Claim C8. When every file of a batch is read with valid headers and at least one row,
  and the records can be grouped, \<^verbatim>\<open>processFiles\<close> returns (and holds in
  \<^verbatim>\<open>processedData\<close>) the concatenation, in the order of the files, of the records of
  each file; whenever \<^verbatim>\<open>processFiles\<close> returns a sequence it is such a concatenation.
  The records of one file are the results of \<^verbatim>\<open>processRow\<close> that are not \<^verbatim>\<open>null\<close>, in
  the order of the rows.
\<close>

theorem processFiles_concatenates:
  "(list_all2 (\<lambda>f d. readFile f = Inr d \<and> d \<noteq> []) files datas \<and>
    groupBy (concat (map (file_records P) datas)) = Inr groups \<longrightarrow>
      fst (processFiles P files this) = Inr (concat (map (file_records P) datas)) \<and>
      processedData (snd (processFiles P files this)) = concat (map (file_records P) datas)) \<and>
   (fst (processFiles P files this) = Inr out \<longrightarrow>
      (\<exists>ds. list_all2 (\<lambda>f d. readFile f = Inr d \<and> d \<noteq> []) files ds \<and>
         out = concat (map (file_records P) ds))) \<and>
   map Some (file_records P d) = filter (\<lambda>r. r \<noteq> None) (map (processRow P) d)"
  using processFiles_success [of files datas P groups this] processFiles_Inr [of P files this out]
  by (simp add: file_records_def non_null_filter)

theorem processFiles_concatenates_witness:
  "fst (processFiles iso_Date_parse [example_file_1, example_file_2] new_DataProcessor) =
     Inr [\<lparr>jobName = ''backup'', agentName = ''srv1'', startDateTime = 1710498600000,
           endDateTime = 1710499500000, duration = 15\<rparr>,
          \<lparr>jobName = ''sync'', agentName = ''srv2'', startDateTime = 1710576000000,
           endDateTime = 1710577200000, duration = 20\<rparr>,
          \<lparr>jobName = ''backup'', agentName = ''srv3'', startDateTime = 1710669600000,
           endDateTime = 1710670200000, duration = 10\<rparr>]"
proof -
  have reads: "list_all2 (\<lambda>f d. readFile f = Inr d \<and> d \<noteq> [])
                 [example_file_1, example_file_2] [example_rows, example_rows_2]"
    by (simp add: example_files_read example_rows_nonempty)
  from processFiles_concatenates [of "[example_file_1, example_file_2]"
      "[example_rows, example_rows_2]" iso_Date_parse _ new_DataProcessor]
    reads example_groupBy
  show ?thesis
    by (simp add: example_file_records)
qed

text \<open>
  Claim C9. \<^verbatim>\<open>reset\<close> clears the raw data, the processed records and the statistics.
  Processing the same files again after a reset returns the same result and leaves the
  same state (records and statistics) as the first run, and the outcome of
  \<^verbatim>\<open>processFiles\<close> does not depend on the state it starts from.
\<close>

theorem processFiles_after_reset:
  "reset this = \<lparr>rawData = [], processedData = [], statistics = []\<rparr> \<and>
   processFiles P files (reset (snd (processFiles P files this))) = processFiles P files this \<and>
   processFiles P files this = processFiles P files that"
  by (simp add: processFiles_def reset_def)

theorem processFiles_after_reset_witness:
  "processFiles iso_Date_parse [example_file_1, example_file_2]
     (reset (snd (processFiles iso_Date_parse [example_file_1, example_file_2] new_DataProcessor)))
   = processFiles iso_Date_parse [example_file_1, example_file_2] new_DataProcessor"
  by (rule processFiles_after_reset [of new_DataProcessor iso_Date_parse
        "[example_file_1, example_file_2]", THEN conjunct2, THEN conjunct1])

text \<open>
  Claim C6. Every record that \<^verbatim>\<open>processRow\<close> returns, and so every record that
  \<^verbatim>\<open>processFileData\<close> and \<^verbatim>\<open>processFiles\<close> return, has a duration of at least 0, an end
  not before its start, and a duration equal to end minus start in minutes
  (milliseconds divided by 60000). A row whose end lies before its start is rejected.
\<close>

theorem emitted_records_valid:
  "(processRow P row = Some r \<longrightarrow> record_invariant r) \<and>
   (processFileData P data = Inr recs \<longrightarrow> (\<forall>x \<in> set recs. record_invariant x)) \<and>
   (fst (processFiles P files this) = Inr out \<longrightarrow> (\<forall>x \<in> set out. record_invariant x)) \<and>
   (parseDateTime P (raw_startDateTime row) = Some s \<and>
    parseDateTime P (raw_endDateTime row) = Some e \<and> e < s \<longrightarrow> processRow P row = None)"
proof -
  have "fst (processFiles P files this) = Inr out \<longrightarrow> (\<forall>x \<in> set out. record_invariant x)"
  proof (intro impI ballI)
    fix x assume a: "fst (processFiles P files this) = Inr out" and x: "x \<in> set out"
    from processFiles_Inr [OF a] x obtain d where "x \<in> set (file_records P d)"
      by auto
    then obtain rw where "processRow P rw = Some x"
      by (auto simp: file_records_def set_non_null image_iff)
    then show "record_invariant x" by (rule processRow_invariant)
  qed
  then show ?thesis
    by (auto simp: processRow_None intro: processRow_invariant processFileData_invariant)
qed

theorem emitted_records_valid_witness:
  "processRow iso_Date_parse
     (example_row ''backup'' ''srv1'' ''15/03/2024 10:30:00'' ''15/03/2024 10:45:00'') =
     Some \<lparr>jobName = ''backup'', agentName = ''srv1'', startDateTime = 1710498600000,
           endDateTime = 1710499500000, duration = 15\<rparr> \<and>
   record_invariant \<lparr>jobName = ''backup'', agentName = ''srv1'', startDateTime = 1710498600000,
           endDateTime = 1710499500000, duration = 15\<rparr> \<and>
   processRow iso_Date_parse
     (example_row ''sync'' ''srv2'' ''2024-03-17 08:00:00'' ''2024-03-17 07:00:00'') = None"
proof -
  have r: "processRow iso_Date_parse
     (example_row ''backup'' ''srv1'' ''15/03/2024 10:30:00'' ''15/03/2024 10:45:00'') =
     Some \<lparr>jobName = ''backup'', agentName = ''srv1'', startDateTime = 1710498600000,
           endDateTime = 1710499500000, duration = 15\<rparr>"
    by (simp add: processRow_def example_row_def example_dates example_names)
  have d: "parseDateTime iso_Date_parse (raw_startDateTime
             (example_row ''sync'' ''srv2'' ''2024-03-17 08:00:00'' ''2024-03-17 07:00:00''))
             = Some 1710662400000 \<and>
           parseDateTime iso_Date_parse (raw_endDateTime
             (example_row ''sync'' ''srv2'' ''2024-03-17 08:00:00'' ''2024-03-17 07:00:00''))
             = Some 1710658800000 \<and> (1710658800000 :: int) < 1710662400000"
    by (simp add: example_row_def example_dates_2)
  from emitted_records_valid [of iso_Date_parse
      "example_row ''backup'' ''srv1'' ''15/03/2024 10:30:00'' ''15/03/2024 10:45:00''"
      "\<lparr>jobName = ''backup'', agentName = ''srv1'', startDateTime = 1710498600000,
           endDateTime = 1710499500000, duration = 15\<rparr>"] r
  have i: "record_invariant \<lparr>jobName = ''backup'', agentName = ''srv1'',
            startDateTime = 1710498600000, endDateTime = 1710499500000, duration = 15\<rparr>"
    by blast
  from emitted_records_valid [of iso_Date_parse
      "example_row ''sync'' ''srv2'' ''2024-03-17 08:00:00'' ''2024-03-17 07:00:00''"
      _ _ _ _ _ _ 1710662400000 1710658800000] d
  have "processRow iso_Date_parse
     (example_row ''sync'' ''srv2'' ''2024-03-17 08:00:00'' ''2024-03-17 07:00:00'') = None"
    by blast
  with r i show ?thesis by blast
qed

section \<open>Header validation and empty files\<close>

text \<open>
  \<^verbatim>\<open>includes\<close> is containment as a contiguous substring.
\<close>

lemma includes_str_substring:
  "includes_str s sub \<longleftrightarrow> (\<exists>pre post. s = pre @ sub @ post)"
proof (induction s)
  case Nil
  show ?case by auto
next
  case (Cons c cs)
  show ?case
  proof
    assume "includes_str (c # cs) sub"
    then consider "take (length sub) (c # cs) = sub" | "includes_str cs sub" by auto
    then show "\<exists>pre post. c # cs = pre @ sub @ post"
    proof cases
      case 1
      then have "c # cs = [] @ sub @ drop (length sub) (c # cs)"
        by (metis append_Nil append_take_drop_id)
      then show ?thesis by blast
    next
      case 2
      with Cons.IH obtain pre post where "cs = pre @ sub @ post" by blast
      then have "c # cs = (c # pre) @ sub @ post" by simp
      then show ?thesis by blast
    qed
  next
    assume "\<exists>pre post. c # cs = pre @ sub @ post"
    then obtain pre post where eq: "c # cs = pre @ sub @ post" by blast
    show "includes_str (c # cs) sub"
    proof (cases pre)
      case Nil
      with eq have "take (length sub) (c # cs) = sub" by simp
      then show ?thesis by simp
    next
      case (Cons p pre')
      with eq have "cs = pre' @ sub @ post" by simp
      with Cons.IH have "includes_str cs sub" by blast
      then show ?thesis by simp
    qed
  qed
qed

lemma validateHeaders_loop_Inl:
  "validateHeaders_loop sh cols = Inl e \<Longrightarrow>
     \<exists>c \<in> set cols. \<not> header_present sh c \<and>
        e = ValidationError (HEADERS c) (COLUMNS c @ decimal_nat HEADER_ROW)"
  by (induction cols) (auto simp: header_present_def Let_def split: option.splits if_splits)

lemma validateHeaders_loop_Inr:
  "validateHeaders_loop sh cols = Inr u \<longleftrightarrow> (\<forall>c \<in> set cols. header_present sh c)"
  by (induction cols) (auto simp: header_present_def Let_def split: option.splits if_splits)

lemma COLUMNS_entries_all: "col \<in> set COLUMNS_entries"
  by (cases col) (simp_all add: COLUMNS_entries_def)

lemma validateHeaders_iff: "validateHeaders sh = Inr () \<longleftrightarrow> (\<forall>c. header_present sh c)"
  using COLUMNS_entries_all by (auto simp: validateHeaders_def validateHeaders_loop_Inr)

text \<open>
  Claim C3, as amended. If one of the four header cells (the configured column letter at
  the header row) is absent, falsy, or does not contain the expected label as a
  substring, then \<^verbatim>\<open>validateHeaders\<close> throws a \<^verbatim>\<open>ValidationError\<close> (for the first such
  column in configuration order), \<^verbatim>\<open>readFile\<close> rejects with a \<^verbatim>\<open>FileError\<close> that wraps
  it whatever the data rows are, and a batch with that file fails with a
  \<^verbatim>\<open>ProcessingError\<close>: when the files before it were read, the processor holds their
  records only, none of this file.
\<close>

theorem header_mismatch_is_fatal:
  assumes "\<not> header_present sh col"
  shows "\<exists>c. \<not> header_present sh c \<and>
           validateHeaders sh =
             Inl (ValidationError (HEADERS c) (COLUMNS c @ decimal_nat HEADER_ROW)) \<and>
           readFile \<lparr>fname = n, workbook = Some (sh, rows)\<rparr> =
             Inl (FileError (Some (ValidationError (HEADERS c)
                                     (COLUMNS c @ decimal_nat HEADER_ROW)))) \<and>
           (list_all2 (\<lambda>f d. readFile f = Inr d \<and> d \<noteq> []) pre datas \<longrightarrow>
              processFiles P (pre @ \<lparr>fname = n, workbook = Some (sh, rows)\<rparr> # post) this =
                (Inl (ProcessingError (FileError (Some (ValidationError (HEADERS c)
                                     (COLUMNS c @ decimal_nat HEADER_ROW))))),
                 \<lparr>rawData = [], processedData = concat (map (file_records P) datas),
                  statistics = []\<rparr>))"
proof -
  from assms validateHeaders_iff [of sh] obtain e where e: "validateHeaders sh = Inl e"
    by (cases "validateHeaders sh") auto
  from validateHeaders_loop_Inl [OF e [unfolded validateHeaders_def]]
  obtain c where c: "\<not> header_present sh c"
    and ec: "e = ValidationError (HEADERS c) (COLUMNS c @ decimal_nat HEADER_ROW)"
    by blast
  let ?file = "\<lparr>fname = n, workbook = Some (sh, rows)\<rparr>"
  have rd: "readFile ?file = Inl (FileError (Some e))"
    by (simp add: readFile_def e)
  have "list_all2 (\<lambda>f d. readFile f = Inr d \<and> d \<noteq> []) pre datas \<longrightarrow>
          processFiles P (pre @ ?file # post) this =
            (Inl (ProcessingError (FileError (Some e))),
             \<lparr>rawData = [], processedData = concat (map (file_records P) datas),
              statistics = []\<rparr>)"
  proof
    assume ok: "list_all2 (\<lambda>f d. readFile f = Inr d \<and> d \<noteq> []) pre datas"
    show "processFiles P (pre @ ?file # post) this =
            (Inl (ProcessingError (FileError (Some e))),
             \<lparr>rawData = [], processedData = concat (map (file_records P) datas),
              statistics = []\<rparr>)"
      by (simp add: processFiles_def processFiles_loop_append [OF ok] rd reset_def)
  qed
  with c e rd show ?thesis unfolding ec by blast
qed

theorem header_mismatch_is_fatal_witness:
  "\<not> header_present example_sheet_missing AGENT_NAME \<and>
   validateHeaders example_sheet_missing = Inl (ValidationError ''Agent Name'' ''E9'') \<and>
   processFiles iso_Date_parse [example_file_1, example_file_missing, example_file_2]
       new_DataProcessor =
     (Inl (ProcessingError (FileError (Some (ValidationError ''Agent Name'' ''E9'')))),
      \<lparr>rawData = [], processedData = file_records iso_Date_parse example_rows,
       statistics = []\<rparr>)"
proof -
  have h: "\<not> header_present example_sheet_missing AGENT_NAME"
    by code_simp
  have v: "validateHeaders example_sheet_missing = Inl (ValidationError ''Agent Name'' ''E9'')"
    by code_simp
  have ok: "list_all2 (\<lambda>f d. readFile f = Inr d \<and> d \<noteq> []) [example_file_1] [example_rows]"
    by (simp add: example_files_read example_rows_nonempty)
  from header_mismatch_is_fatal [OF h, of "''missing.xlsx''" example_rows_2 "[example_file_1]"
      "[example_rows]" iso_Date_parse "[example_file_2]" new_DataProcessor]
  obtain c where "validateHeaders example_sheet_missing =
             Inl (ValidationError (HEADERS c) (COLUMNS c @ decimal_nat HEADER_ROW))"
    and "list_all2 (\<lambda>f d. readFile f = Inr d \<and> d \<noteq> []) [example_file_1] [example_rows] \<longrightarrow>
         processFiles iso_Date_parse
           ([example_file_1] @ \<lparr>fname = ''missing.xlsx'',
               workbook = Some (example_sheet_missing, example_rows_2)\<rparr> # [example_file_2])
           new_DataProcessor =
           (Inl (ProcessingError (FileError (Some (ValidationError (HEADERS c)
                                     (COLUMNS c @ decimal_nat HEADER_ROW))))),
            \<lparr>rawData = [], processedData = concat (map (file_records iso_Date_parse) [example_rows]),
             statistics = []\<rparr>)"
    by blast
  with v ok have "processFiles iso_Date_parse
      [example_file_1, example_file_missing, example_file_2] new_DataProcessor =
     (Inl (ProcessingError (FileError (Some (ValidationError ''Agent Name'' ''E9'')))),
      \<lparr>rawData = [], processedData = file_records iso_Date_parse example_rows,
       statistics = []\<rparr>)"
    by (simp add: example_file_missing_def)
  with h v show ?thesis by blast
qed

text \<open>
  The claim C3 as stated fails: a header cell that holds more than the label, here
  \<open>Old Job Name (v2)\<close> in cell A9, is not the exact expected text, yet validation
  succeeds and the rows of the file are read.
\<close>

theorem header_with_extra_text_counterexample:
  "example_sheet_loose ''A9'' = Some (XStr ''Old Job Name (v2)'') \<and>
   ''Old Job Name (v2)'' \<noteq> HEADERS JOB_NAME \<and>
   validateHeaders example_sheet_loose = Inr () \<and>
   readFile \<lparr>fname = ''loose.xlsx'', workbook = Some (example_sheet_loose, example_rows)\<rparr> =
     Inr example_rows"
proof -
  have v: "validateHeaders example_sheet_loose = Inr ()"
    by code_simp
  then show ?thesis
    by (simp add: readFile_def filterRelevantColumns_id example_sheet_loose_def)
qed

text \<open>
  Claim C4, as amended. A file without any data row makes \<^verbatim>\<open>processFileData\<close> throw a
  \<^verbatim>\<open>DataError\<close>, and the batch fails with a \<^verbatim>\<open>ProcessingError\<close> that wraps it. The
  check is made on the rows as read, before they are normalized: a file that has rows
  returns the records of its valid rows without an error.
\<close>

theorem empty_file_is_fatal:
  "processFileData P [] = Inl DataError \<and>
   (list_all2 (\<lambda>f d. readFile f = Inr d \<and> d \<noteq> []) pre datas \<and> readFile file = Inr [] \<longrightarrow>
      fst (processFiles P (pre @ file # post) this) = Inl (ProcessingError DataError)) \<and>
   (data \<noteq> [] \<longrightarrow> processFileData P data = Inr (file_records P data))"
proof -
  have "list_all2 (\<lambda>f d. readFile f = Inr d \<and> d \<noteq> []) pre datas \<and> readFile file = Inr [] \<longrightarrow>
      fst (processFiles P (pre @ file # post) this) = Inl (ProcessingError DataError)"
  proof
    assume a: "list_all2 (\<lambda>f d. readFile f = Inr d \<and> d \<noteq> []) pre datas \<and> readFile file = Inr []"
    then have ok: "list_all2 (\<lambda>f d. readFile f = Inr d \<and> d \<noteq> []) pre datas"
      and rd: "readFile file = Inr []" by simp_all
    show "fst (processFiles P (pre @ file # post) this) = Inl (ProcessingError DataError)"
      by (simp add: processFiles_def processFiles_loop_append [OF ok] rd processFileData_def)
  qed
  then show ?thesis
    by (simp add: processFileData_def file_records_def)
qed

theorem empty_file_is_fatal_witness:
  "readFile example_file_empty = Inr [] \<and>
   fst (processFiles iso_Date_parse [example_file_1, example_file_empty, example_file_2]
          new_DataProcessor) = Inl (ProcessingError DataError)"
proof -
  have rd: "readFile example_file_empty = Inr []"
    by (simp add: readFile_def example_file_empty_def example_sheet_valid
        filterRelevantColumns_id)
  have ok: "list_all2 (\<lambda>f d. readFile f = Inr d \<and> d \<noteq> []) [example_file_1] [example_rows]"
    by (simp add: example_files_read example_rows_nonempty)
  from empty_file_is_fatal [of iso_Date_parse "[example_file_1]" "[example_rows]"
      example_file_empty "[example_file_2]" new_DataProcessor] rd ok
  show ?thesis by simp
qed

text \<open>
  The claim C4 as stated fails: a file whose only row has unparsable dates yields zero
  valid rows, and both \<^verbatim>\<open>processFileData\<close> and \<^verbatim>\<open>processFiles\<close> return the empty
  sequence instead of signalling an error.
\<close>

theorem all_rows_dropped_counterexample:
  "file_records iso_Date_parse
     [example_row ''backup'' ''srv1'' ''not-a-date'' ''not-a-date''] = [] \<and>
   processFileData iso_Date_parse
     [example_row ''backup'' ''srv1'' ''not-a-date'' ''not-a-date''] = Inr [] \<and>
   fst (processFiles iso_Date_parse [example_file_invalid] new_DataProcessor) = Inr []"
proof -
  have r: "processRow iso_Date_parse
             (example_row ''backup'' ''srv1'' ''not-a-date'' ''not-a-date'') = None"
    by (simp add: processRow_def example_row_def example_dates)
  have rd: "readFile example_file_invalid =
              Inr [example_row ''backup'' ''srv1'' ''not-a-date'' ''not-a-date'']"
    by (simp add: readFile_def example_file_invalid_def example_sheet_valid
        filterRelevantColumns_id)
  show ?thesis
    by (simp add: file_records_def processFileData_def r rd processFiles_def reset_def
        new_DataProcessor_def calculateStatistics_def groupBy_def)
qed

section \<open>The Date Parser\<close>

lemma normalized_examples:
  "collapse_spaces (remove_commas (trim ''15/03/2024 10:30:00'')) = ''15/03/2024 10:30:00''"
  "collapse_spaces (remove_commas (trim ''2024-03-15T10:30:00'')) = ''2024-03-15T10:30:00''"
  "collapse_spaces (remove_commas (trim ''not-a-date'')) = ''not-a-date''"
  by code_simp+

lemma split_examples:
  "split_on CHR '' '' ''15/03/2024 10:30:00'' = [''15/03/2024'', ''10:30:00'']"
  "split_on CHR ''/'' ''15/03/2024'' = [''15'', ''03'', ''2024'']"
  "split_on CHR '' '' ''not-a-date'' = [''not-a-date'']"
  "split_on CHR ''/'' ''not-a-date'' = [''not-a-date'']"
  by code_simp+

lemma mdy_replace_examples:
  "mdy_replace ''not-a-date'' = ''not-a-date''"
  by code_simp

lemma element_examples:
  "element [a, b, c] 0 = Some a" "element [a, b, c] 1 = Some b" "element [a, b, c] 2 = Some c"
  "element [a] 0 = Some a" "element [a] 1 = None" "element [a] 2 = None"
  "element [] 0 = None"
  by (simp_all add: numeral_2_eq_2)

lemma format_dmy_examples:
  "format_dmy Date_parse ''15/03/2024 10:30:00'' = Date_parse ''2024-03-15 10:30:00''"
  "format_dmy Date_parse ''not-a-date'' = Date_parse ''undefined-undefined-not-a-date''"
  by (simp_all add: format_dmy_def split_examples element_examples)

text \<open>
  Claim C7. On a runtime whose \<^verbatim>\<open>Date\<close> rejects the text \<open>15/03/2024 10:30:00\<close> (no
  month 15), reads \<open>2024-03-15 10:30:00\<close> and \<open>2024-03-15T10:30:00\<close> as the same instant,
  and rejects \<open>not-a-date\<close> and \<open>undefined-undefined-not-a-date\<close>, the parser maps
  \<open>15/03/2024 10:30:00\<close> and \<open>2024-03-15T10:30:00\<close> to that same instant, and maps the
  empty string and \<open>not-a-date\<close> to \<^verbatim>\<open>null\<close>. The parser returns a value for every
  input: an exception inside a format is caught and the next format is tried.
\<close>

theorem parseDateTime_examples:
  assumes "Date_parse ''15/03/2024 10:30:00'' = None"
    and "Date_parse ''2024-03-15 10:30:00'' = Some t"
    and "Date_parse ''2024-03-15T10:30:00'' = Some t"
    and "Date_parse ''not-a-date'' = None"
    and "Date_parse ''undefined-undefined-not-a-date'' = None"
  shows "parseDateTime Date_parse (Str ''15/03/2024 10:30:00'') = Some t \<and>
         parseDateTime Date_parse (Str ''2024-03-15T10:30:00'') = Some t \<and>
         parseDateTime Date_parse (Str []) = None \<and>
         parseDateTime Date_parse (Str ''not-a-date'') = None"
proof -
  have "parseDateTime Date_parse (Str ''15/03/2024 10:30:00'') = Some t"
    by (simp add: parseDateTime_def parse_text_def normalized_examples format_dmy_examples assms)
  moreover have "parseDateTime Date_parse (Str ''2024-03-15T10:30:00'') = Some t"
    by (simp add: parseDateTime_def parse_text_def normalized_examples assms)
  moreover have "parseDateTime Date_parse (Str []) = None"
    by (simp add: parseDateTime_def)
  moreover have "parseDateTime Date_parse (Str ''not-a-date'') = None"
    by (simp add: parseDateTime_def parse_text_def normalized_examples format_dmy_examples
        mdy_replace_examples assms del: mdy_replace.simps)
  ultimately show ?thesis by blast
qed

lemma iso_examples:
  "iso_Date_parse ''15/03/2024 10:30:00'' = None"
  "iso_Date_parse ''2024-03-15 10:30:00'' = Some 1710498600000"
  "iso_Date_parse ''2024-03-15T10:30:00'' = Some 1710498600000"
  "iso_Date_parse ''not-a-date'' = None"
  "iso_Date_parse ''undefined-undefined-not-a-date'' = None"
  by code_simp+

theorem parseDateTime_examples_witness:
  "parseDateTime iso_Date_parse (Str ''15/03/2024 10:30:00'') = Some 1710498600000 \<and>
   parseDateTime iso_Date_parse (Str ''2024-03-15T10:30:00'') = Some 1710498600000 \<and>
   parseDateTime iso_Date_parse (Str []) = None \<and>
   parseDateTime iso_Date_parse (Str ''not-a-date'') = None"
  by (rule parseDateTime_examples [OF iso_examples])

lemma first_valid_Cons:
  "first_valid (x # xs) = (case x of Some d \<Rightarrow> Some d | None \<Rightarrow> first_valid xs)"
  by (cases x) simp_all

text \<open>
  The formats are tried in a fixed order, and the first valid date wins: the text as
  it is, then day/month/year reassembled, then month/day/year substituted.
\<close>

lemma parse_text_order:
  "parse_text Date_parse text =
     (let strValue = collapse_spaces (remove_commas (trim text))
      in case Date_parse strValue of
           Some d \<Rightarrow> Some d
         | None \<Rightarrow>
             (case format_dmy Date_parse strValue of
                Some d \<Rightarrow> Some d
              | None \<Rightarrow> Date_parse (mdy_replace strValue)))"
  by (simp add: parse_text_def Let_def first_valid_Cons del: first_valid.simps(2,3)
      split: option.splits)

section \<open>The overdue analysis of a job group\<close>

text \<open>
  A real number that lies within half a unit of a significand, in the right binade,
  rounds to it.
\<close>

lemma round_half_even_nearest:
  assumes "\<bar>q - real_of_int m\<bar> < 1 / 2"
  shows "round_half_even q = m"
proof (cases "real_of_int m \<le> q")
  case True
  with assms have "\<lfloor>q\<rfloor> = m" by (intro floor_unique) (auto simp: abs_if split: if_splits)
  with assms True show ?thesis by (simp add: round_half_even_def)
next
  case False
  with assms have f: "\<lfloor>q\<rfloor> = m - 1" by (intro floor_unique) (auto simp: abs_if split: if_splits)
  from assms False have "1 / 2 < q - real_of_int (m - 1)" by (simp add: abs_if split: if_splits)
  with f show ?thesis by (simp add: round_half_even_def)
qed

lemma double_round_nearest:
  assumes lo: "2 ^ 52 * 2 powr real_of_int e \<le> \<bar>x\<bar>"
    and hi: "\<bar>x\<bar> < 2 ^ 53 * 2 powr real_of_int e"
    and near: "\<bar>x / 2 powr real_of_int e - real_of_int m\<bar> < 1 / 2"
  shows "double_round x = dbl m e"
proof -
  have "0 < (2::real) ^ 52 * 2 powr real_of_int e"
    by simp
  with lo have pos: "0 < \<bar>x\<bar>"
    by linarith
  have "2 powr real_of_int (e + 52) = 2 ^ 52 * 2 powr real_of_int e"
    by (simp add: powr_add powr_realpow [symmetric] mult.commute)
  moreover have "2 powr (real_of_int (e + 52) + 1) = 2 ^ 53 * 2 powr real_of_int e"
    by (simp add: powr_add powr_realpow [symmetric] mult.commute)
  ultimately have "\<lfloor>log 2 \<bar>x\<bar>\<rfloor> = e + 52"
    using lo hi pos by (subst floor_log_eq_powr_iff) simp_all
  then have "\<lfloor>log 2 \<bar>x\<bar>\<rfloor> - 52 = e" by simp
  moreover from pos have "x \<noteq> 0" by auto
  ultimately show ?thesis
    by (simp add: double_round_def round_half_even_nearest [OF near])
qed





















lemma tie_durations:
  "js_div ieee_arith 1000 60000 = tie_short" "js_div ieee_arith 63000 60000 = tie_long"
  by (simp_all only: ieee_arith_def arith.simps tie_short_def tie_long_def)
     (rule double_round_nearest; simp add: dbl_def powr_minus_divide)+

lemma tie_order: "tie_short < tie_long"
  by (simp add: tie_short_def tie_long_def dbl_def powr_minus_divide)

















lemma calculateStats_fl_exact: "calculateStats_fl exact_arith vals = calculateStats vals"
  by (cases vals) (simp_all add: calculateStats_fl_def calculateStats_def exact_arith_def)

lemma calculateStats_fl_spec:
  assumes "ds \<noteq> []"
  shows "\<exists>st. calculateStats_fl A ds = Some st \<and>
           mean st = js_div A (foldl (js_add A) 0 ds) (real (length ds)) \<and>
           std st = js_sqrt A (js_div A
                      (foldl (js_add A) 0 (map (\<lambda>d. js_pow A (js_sub A d (mean st)) 2) ds))
                      (real (length ds)))"
proof -
  obtain v vs where "ds = v # vs"
    using assms by (cases ds) auto
  then show ?thesis
    by (simp add: calculateStats_fl_def Let_def)
qed

lemma overdue_entry_spec:
  assumes "jobs \<noteq> []"
  shows "\<exists>a st. overdue_entry A jobs = Inr a \<and>
           calculateStats_fl A (map duration jobs) = Some st \<and>
           overdueCount a =
             length (filter (\<lambda>j. duration j >
                        js_add A (mean st) (js_mul A (std st) OVERDUE_THRESHOLD)) jobs) \<and>
           totalExecutions_od a = length jobs \<and>
           overduePercentage a =
             js_mul A (js_div A (real (overdueCount a)) (real (length jobs))) 100"
proof -
  from assms have "map duration jobs \<noteq> []" by simp
  from calculateStats_fl_spec [OF this] obtain st
    where "calculateStats_fl A (map duration jobs) = Some st"
    by blast
  then show ?thesis
    by (simp add: overdue_entry_def Let_def)
qed

lemma overdue_forEach_spec:
  assumes "distinct (map fst gs)" and "\<forall>(k, jobs) \<in> set gs. jobs \<noteq> []"
  shows "\<exists>res. overdue_forEach A acc gs = Inr res \<and>
           fst ` set res = fst ` set acc \<union> fst ` set gs \<and>
           (distinct (map fst acc) \<longrightarrow> distinct (map fst res)) \<and>
           (\<forall>k. case map_of gs k of
                  None \<Rightarrow> map_of res k = map_of acc k
                | Some jobs \<Rightarrow> (\<exists>a. overdue_entry A jobs = Inr a \<and> map_of res k = Some a))"
  using assms
proof (induction gs arbitrary: acc)
  case Nil
  then show ?case by simp
next
  case (Cons g gs)
  obtain name jobs where g: "g = (name, jobs)" by (cases g)
  from Cons.prems g have jobs: "jobs \<noteq> []" and name: "name \<notin> fst ` set gs"
    and dist: "distinct (map fst gs)" and rest: "\<forall>(k, jobs) \<in> set gs. jobs \<noteq> []"
    by auto
  from overdue_entry_spec [OF jobs] obtain a where a: "overdue_entry A jobs = Inr a"
    by blast
  from Cons.IH [OF dist rest, of "upsert name a acc"]
  obtain res where res: "overdue_forEach A (upsert name a acc) gs = Inr res"
    and keys: "fst ` set res = fst ` set (upsert name a acc) \<union> fst ` set gs"
    and d: "distinct (map fst (upsert name a acc)) \<longrightarrow> distinct (map fst res)"
    and m: "\<forall>k. case map_of gs k of
                  None \<Rightarrow> map_of res k = map_of (upsert name a acc) k
                | Some jobs \<Rightarrow> (\<exists>a. overdue_entry A jobs = Inr a \<and> map_of res k = Some a)"
    by blast
  have none: "map_of gs name = None"
    using name by (simp add: map_of_eq_None_iff)
  have "overdue_forEach A acc (g # gs) = Inr res"
    by (simp add: g a res)
  moreover have "fst ` set res = fst ` set acc \<union> fst ` set (g # gs)"
    using keys by (auto simp: upsert_keys g)
  moreover have "distinct (map fst acc) \<longrightarrow> distinct (map fst res)"
    using d by (simp add: upsert_distinct)
  moreover have "\<forall>k. case map_of (g # gs) k of
                  None \<Rightarrow> map_of res k = map_of acc k
                | Some jobs \<Rightarrow> (\<exists>a. overdue_entry A jobs = Inr a \<and> map_of res k = Some a)"
  proof
    fix k
    show "case map_of (g # gs) k of
                  None \<Rightarrow> map_of res k = map_of acc k
                | Some jobs \<Rightarrow> (\<exists>a. overdue_entry A jobs = Inr a \<and> map_of res k = Some a)"
    proof (cases "k = name")
      case True
      with m [rule_format, of name] none show ?thesis
        by (simp add: g a upsert_map_of)
    next
      case False
      with m [rule_format, of k] show ?thesis
        by (simp add: g upsert_map_of split: option.splits)
    qed
  qed
  ultimately show ?case by blast
qed

lemma calculateOverdueAnalysis_groups:
  assumes "groupBy recs = Inr g"
  shows "\<exists>analysis. calculateOverdueAnalysis A recs = Inr analysis \<and>
           distinct (map fst analysis) \<and> fst ` set analysis = jobName ` set recs \<and>
           (\<forall>job jobs. map_of g job = Some jobs \<longrightarrow>
              (\<exists>a. overdue_entry A jobs = Inr a \<and> map_of analysis job = Some a))"
proof -
  note G = groupBy_groups [OF assms]
  from overdue_forEach_spec [of g A "[]", OF _ groups_nonempty [OF assms]] G
  obtain res where res: "overdue_forEach A [] g = Inr res"
    and keys: "fst ` set res = fst ` set g"
    and d: "distinct (map fst res)"
    and m: "\<forall>k. case map_of g k of
                  None \<Rightarrow> map_of res k = map_of [] k
                | Some jobs \<Rightarrow> (\<exists>a. overdue_entry A jobs = Inr a \<and> map_of res k = Some a)"
    by auto
  have "calculateOverdueAnalysis A recs = Inr res"
    by (simp add: calculateOverdueAnalysis_def assms res)
  moreover from keys G have "fst ` set res = jobName ` set recs" by simp
  moreover have "\<forall>job jobs. map_of g job = Some jobs \<longrightarrow>
              (\<exists>a. overdue_entry A jobs = Inr a \<and> map_of res job = Some a)"
    using m by (auto split: option.splits dest: spec)
  ultimately show ?thesis using d by blast
qed


lemma two_value_exact_threshold:
  assumes "a \<le> b"
  shows "spec_mean [a, b] + OVERDUE_THRESHOLD * spec_population_stddev [a, b] = b"
proof -
  have m: "spec_mean [a, b] = (a + b) / 2"
    by (simp add: spec_mean_def)
  have "((a - (a + b) / 2)\<^sup>2 + (b - (a + b) / 2)\<^sup>2) / 2 = ((b - a) / 2)\<^sup>2"
    by (simp add: power2_eq_square field_simps)
  then have "spec_population_stddev [a, b] = sqrt (((b - a) / 2)\<^sup>2)"
    by (simp add: spec_population_stddev_def m)
  also have "\<dots> = (b - a) / 2"
    using assms by simp
  finally show ?thesis
    by (simp add: m OVERDUE_THRESHOLD_def field_simps)
qed

text \<open>
  In exact arithmetic the mean plus the standard deviation of two durations is the
  longer one: the run of 63 seconds would tie with the threshold. In double arithmetic
  the threshold is the next number below it (\<open>tie_threshold\<close>), and the run is overdue.
\<close>

lemma tie_exact_threshold:
  "spec_mean [tie_short, tie_long] + OVERDUE_THRESHOLD * spec_population_stddev [tie_short, tie_long]
     = tie_long"
  using tie_order by (intro two_value_exact_threshold) simp



section \<open>Job names and the minimum number of executions\<close>

text \<open>
  \<^term>\<open>MIN_EXECUTIONS\<close> occurs in no operation. When no job name is a property name
  inherited from \<^verbatim>\<open>Object.prototype\<close>, the statistics and the overdue analysis have
  exactly one entry for each job name of the records, however few executions it has.
\<close>

lemma entries_for_every_job_name:
  assumes "\<forall>r \<in> set recs. jobName r \<notin> set Object_prototype_keys"
  shows "\<exists>stats analysis.
           calculateStatistics recs = Inr stats \<and> calculateOverdueAnalysis A recs = Inr analysis \<and>
           distinct (map fst stats) \<and> distinct (map fst analysis) \<and>
           fst ` set stats = jobName ` set recs \<and> fst ` set analysis = jobName ` set recs"
proof -
  from assms groupBy_succeeds [of recs] obtain g where g: "groupBy recs = Inr g"
    by blast
  from calculateStatistics_groups [OF g] obtain stats
    where S: "calculateStatistics recs = Inr stats" "distinct (map fst stats)"
      "fst ` set stats = jobName ` set recs"
    by blast
  from calculateOverdueAnalysis_groups [OF g, of A] obtain analysis
    where An: "calculateOverdueAnalysis A recs = Inr analysis" "distinct (map fst analysis)"
      "fst ` set analysis = jobName ` set recs"
    by blast
  from S An show ?thesis
    by (intro exI [of _ stats] exI [of _ analysis]) simp
qed

lemma small_groups_kept:
  assumes "\<forall>r \<in> set recs. jobName r \<notin> set Object_prototype_keys" and "r \<in> set recs"
  shows "\<exists>stats analysis s a.
           calculateStatistics recs = Inr stats \<and> calculateOverdueAnalysis A recs = Inr analysis \<and>
           map_of stats (jobName r) = Some s \<and> map_of analysis (jobName r) = Some a \<and>
           count s = length (job_group (jobName r) recs) \<and>
           totalExecutions_od a = length (job_group (jobName r) recs)"
proof -
  let ?jobs = "job_group (jobName r) recs"
  from assms groupBy_succeeds [of recs] obtain g where g: "groupBy recs = Inr g"
    by blast
  from groupBy_groups [OF g] assms(2) have m: "map_of g (jobName r) = Some ?jobs"
    by simp
  from groups_nonempty [OF g] m have ne: "?jobs \<noteq> []"
    by (auto dest: map_of_SomeD)
  from calculateStatistics_groups [OF g] m obtain stats s
    where S: "calculateStatistics recs = Inr stats" "statistics_entry ?jobs = Inr s"
      "map_of stats (jobName r) = Some s"
    by blast
  from calculateOverdueAnalysis_groups [OF g, of A] m obtain analysis a
    where An: "calculateOverdueAnalysis A recs = Inr analysis" "overdue_entry A ?jobs = Inr a"
      "map_of analysis (jobName r) = Some a"
    by blast
  from statistics_entry_spec [OF ne] obtain s'
    where "statistics_entry ?jobs = Inr s'" "count s' = length ?jobs"
    by blast
  with S(2) have cs: "count s = length ?jobs" by simp
  from overdue_entry_spec [OF ne, of A] obtain a'
    where "overdue_entry A ?jobs = Inr a'" "totalExecutions_od a' = length ?jobs"
    by blast
  with An(2) have ta: "totalExecutions_od a = length ?jobs" by simp
  from S(1,3) An(1,3) cs ta show ?thesis
    by (intro exI [of _ stats] exI [of _ analysis] exI [of _ s] exI [of _ a]) simp
qed

text \<open>
  Claim C10 fails on a data set with a job named \<open>constructor\<close>: \<^verbatim>\<open>Utils.groupBy\<close>
  reads \<^verbatim>\<open>groups["constructor"]\<close> from \<^verbatim>\<open>Object.prototype\<close>, calls \<^verbatim>\<open>push\<close> on it and
  throws, so neither the statistics nor the overdue analysis has an entry for any job,
  and \<^verbatim>\<open>processFiles\<close> fails.
\<close>

theorem inherited_job_name_throws:
  "calculateStatistics
     [example_run ''backup'' ''srv1'' 10, example_run ''constructor'' ''srv1'' 10] =
     Inl TypeError \<and>
   calculateOverdueAnalysis A
     [example_run ''backup'' ''srv1'' 10, example_run ''constructor'' ''srv1'' 10] =
     Inl TypeError \<and>
   fst (processFiles iso_Date_parse [example_file_constructor] new_DataProcessor) =
     Inl (ProcessingError TypeError)"
proof -
  have g: "groupBy [example_run ''backup'' ''srv1'' 10, example_run ''constructor'' ''srv1'' 10]
             = Inl TypeError"
    by (simp add: groupBy_def groupBy_step_def example_run_def Object_prototype_keys_def)
  have n: "trim ''constructor'' = ''constructor''"
    by code_simp
  have rd: "readFile example_file_constructor =
      Inr [example_row ''backup'' ''srv1'' ''2024-03-17 10:00:00'' ''2024-03-17 10:10:00'',
         example_row ''constructor'' ''srv1'' ''2024-03-17 10:00:00'' ''2024-03-17 10:10:00'']"
    by (simp add: readFile_def example_file_constructor_def example_sheet_valid
        filterRelevantColumns_id)
  have fr: "file_records iso_Date_parse
      [example_row ''backup'' ''srv1'' ''2024-03-17 10:00:00'' ''2024-03-17 10:10:00'',
       example_row ''constructor'' ''srv1'' ''2024-03-17 10:00:00'' ''2024-03-17 10:10:00''] =
      [\<lparr>jobName = ''backup'', agentName = ''srv1'', startDateTime = 1710669600000,
        endDateTime = 1710670200000, duration = 10\<rparr>,
       \<lparr>jobName = ''constructor'', agentName = ''srv1'', startDateTime = 1710669600000,
        endDateTime = 1710670200000, duration = 10\<rparr>]"
    by (simp add: file_records_def processRow_def example_row_def example_dates_2
        example_names n)
  have g2: "groupBy
      [\<lparr>jobName = ''backup'', agentName = ''srv1'', startDateTime = 1710669600000,
        endDateTime = 1710670200000, duration = 10\<rparr>,
       \<lparr>jobName = ''constructor'', agentName = ''srv1'', startDateTime = 1710669600000,
        endDateTime = 1710670200000, duration = 10\<rparr>] = Inl TypeError"
    by (simp add: groupBy_def groupBy_step_def Object_prototype_keys_def)
  have p: "fst (processFiles iso_Date_parse [example_file_constructor] new_DataProcessor) =
     Inl (ProcessingError TypeError)"
    by (simp add: processFiles_def rd processFileData_records fr reset_def
        calculateStatistics_def g2)
  from g p show ?thesis
    by (simp add: calculateStatistics_def calculateOverdueAnalysis_def)
qed

end
